theory Spec2Isabelle
  imports Main
begin

section \<open>Shared data of the orchestration layer (src/lib/api.ts)\<close>

text \<open>
  Every function of \<^verbatim>\<open>api.ts\<close> has the shape
  \<^verbatim>\<open>return new Promise(async (resolve, reject) => { ... })\<close>.
  The model of such a function returns what the caller and the outside world can see
  afterwards: how the promise was settled, the calls made on the \<^verbatim>\<open>Apis\<close>
  singleton and the transaction builder in the order they were made, and the
  application store after the call. Console output is not modelled.
\<close>

text \<open>A JavaScript \<^verbatim>\<open>Error\<close> with its message.\<close>

datatype error = Error string

text \<open>
  The state of the returned promise. A promise is settled at most once: a later
  \<^verbatim>\<open>resolve\<close> or \<^verbatim>\<open>reject\<close> is ignored. \<open>Pending\<close> is a
  promise that is never settled: the executor returned, or threw outside every
  \<^verbatim>\<open>try\<close>, before calling \<^verbatim>\<open>resolve\<close> or \<^verbatim>\<open>reject\<close>.
\<close>

datatype 'a promise = Pending | Resolved 'a | Rejected error

text \<open>
  \<^verbatim>\<open>validResult\<close> comes from \<^verbatim>\<open>./common\<close>, which is not part of the
  sources at hand. It is kept as an uninterpreted wrapper: \<open>ValidResult x\<close> stands for
  \<^verbatim>\<open>validResult(x)\<close>, \<open>Plain x\<close> for the bare value \<^verbatim>\<open>x\<close>.
\<close>

datatype 'a reply = Plain 'a | ValidResult 'a

text \<open>An entry of \<^verbatim>\<open>chains[chain].nodeList\<close>; only its \<^verbatim>\<open>url\<close> is read.\<close>

record node =
  url :: string

text \<open>The remote procedure calls issued through \<^verbatim>\<open>Apis.instance().db_api().exec\<close>.\<close>

datatype rpc =
    Get_objects "string list" bool
  | Get_accounts "string list"
  | Get_limit_orders_by_account string nat
  | Get_account_balances string "string list"

text \<open>The method calls made on a \<^verbatim>\<open>TransactionBuilder\<close>.\<close>

datatype 'p tr_call =
    Add_type_operation string 'p
  | Update_head_block
  | Set_required_fees
  | Set_expire_seconds nat
  | Finalize

text \<open>
  What a call does to the outside world, in order. \<open>ApisInstance node timeout\<close> is
  \<^verbatim>\<open>Apis.instance(node, true, timeout, ...)\<close> followed by waiting for its
  \<^verbatim>\<open>init_promise\<close>; \<open>ApisClose\<close> is \<^verbatim>\<open>Apis.close()\<close>;
  \<open>ChangeURL chain\<close> is \<^verbatim>\<open>changeURL(chain, app)\<close>.
\<close>

datatype 'p event =
    ApisInstance string "nat option"
  | ApisClose
  | ChangeURL string
  | DbExec rpc
  | Tr "'p tr_call"

record ('r, 'p, 's) outcome =
  promise :: "'r promise"
  trace :: "'p event list"
  store :: 's

definition emit :: "'p event \<Rightarrow> ('r, 'p, 's) outcome \<Rightarrow> ('r, 'p, 's) outcome" where
  "emit ev oc = oc\<lparr>trace := trace oc @ [ev]\<rparr>"

definition reject :: "error \<Rightarrow> ('r, 'p, 's) outcome \<Rightarrow> ('r, 'p, 's) outcome" where
  "reject e oc = (case promise oc of Pending \<Rightarrow> oc\<lparr>promise := Rejected e\<rparr> | _ \<Rightarrow> oc)"

definition resolve :: "'r \<Rightarrow> ('r, 'p, 's) outcome \<Rightarrow> ('r, 'p, 's) outcome" where
  "resolve v oc = (case promise oc of Pending \<Rightarrow> oc\<lparr>promise := Resolved v\<rparr> | _ \<Rightarrow> oc)"

text \<open>
  The collaborators of \<^verbatim>\<open>api.ts\<close> that are not part of the sources at hand,
  taken as parameters:
  \<^item> \<open>chains\<close>: the static configuration \<^verbatim>\<open>chains[chain].nodeList\<close> of
    \<^verbatim>\<open>../config/chains\<close> (\<open>None\<close> for a chain that is not configured);
  \<^item> \<open>getCurrentNode\<close>, \<open>changeURL\<close>: the functions of \<^verbatim>\<open>./states\<close>,
    reading and rotating the node order kept in the application store;
  \<^item> \<open>init_promise\<close>: whether connecting to a node fails, and with which error;
  \<^item> \<open>db_api\<close>: whether \<^verbatim>\<open>Apis.instance().db_api()\<close> is truthy;
  \<^item> \<open>exec\<close>: the outcome of the \<open>i\<close>-th remote call of this session: an error
    thrown, or the decoded result, which is \<^verbatim>\<open>null\<close>/\<^verbatim>\<open>undefined\<close>
    (\<open>None\<close>) or an array whose entries are objects or \<^verbatim>\<open>null\<close>.
\<close>

record ('obj, 'app) apis_env =
  chains :: "string \<Rightarrow> node list option"
  getCurrentNode :: "string \<Rightarrow> 'app \<Rightarrow> string"
  changeURL :: "string \<Rightarrow> 'app \<Rightarrow> 'app"
  init_promise :: "string \<Rightarrow> error option"
  db_api :: bool
  exec :: "nat \<Rightarrow> rpc \<Rightarrow> error + 'obj option list option"

section \<open>Batch object fetch: \<^verbatim>\<open>_sliceIntoChunks\<close> and \<^verbatim>\<open>getObjects\<close>\<close>

text \<open>
  \<^verbatim>\<open>for (let i = 0; i < arr.length; i += size) chunks.push(arr.slice(i, i + size))\<close>.
  With \<open>sz = 0\<close> and a non-empty array the loop never ends, so the loop is a partial
  function: \<open>None\<close> is "does not return".
\<close>

partial_function (option) sliceIntoChunks_loop ::
  "'a list \<Rightarrow> nat \<Rightarrow> nat \<Rightarrow> 'a list list \<Rightarrow> 'a list list option" where
  "sliceIntoChunks_loop arr sz i chunks =
     (if i < length arr
      then sliceIntoChunks_loop arr sz (i + sz) (chunks @ [take sz (drop i arr)])
      else Some chunks)"

definition sliceIntoChunks :: "'a list \<Rightarrow> nat \<Rightarrow> 'a list list option" where
  "sliceIntoChunks arr sz = sliceIntoChunks_loop arr sz 0 []"

text \<open>\<^verbatim>\<open>got_objects.filter((x) => x !== null)\<close>\<close>

definition filter_not_null :: "'obj option list \<Rightarrow> 'obj list" where
  "filter_not_null got_objects = map the (filter (\<lambda>x. x \<noteq> None) got_objects)"

text \<open>
  The loop over the chunks. \<open>i\<close> is the index of the chunk; the state is
  \<^verbatim>\<open>retrievedObjects\<close> and the trace. There is no test of
  \<^verbatim>\<open>Apis.instance().db_api()\<close> before the loop: when it is undefined,
  \<^verbatim>\<open>.exec\<close> raises a TypeError inside the \<^verbatim>\<open>try\<close> of the chunk, the
  \<^verbatim>\<open>catch\<close> goes on to the next chunk, and no remote call is made.
\<close>

fun getObjects_loop ::
  "('obj, 'app) apis_env \<Rightarrow> nat \<Rightarrow> string list list \<Rightarrow> 'obj list \<times> 'p event list
     \<Rightarrow> 'obj list \<times> 'p event list" where
  "getObjects_loop E i [] (retrievedObjects, t) = (retrievedObjects, t)"
| "getObjects_loop E i (currentChunk # rest) (retrievedObjects, t) =
     (if \<not> db_api E
      then getObjects_loop E (i + 1) rest (retrievedObjects, t)
      else
        (case exec E i (Get_objects currentChunk False) of
           Inl error \<Rightarrow>
             getObjects_loop E (i + 1) rest
               (retrievedObjects, t @ [DbExec (Get_objects currentChunk False)])
         | Inr got_objects \<Rightarrow>
             (case got_objects of
                None \<Rightarrow>
                  getObjects_loop E (i + 1) rest
                    (retrievedObjects, t @ [DbExec (Get_objects currentChunk False)])
              | Some xs \<Rightarrow>
                  if xs \<noteq> []
                  then getObjects_loop E (i + 1) rest
                         (retrievedObjects @ filter_not_null xs,
                          t @ [DbExec (Get_objects currentChunk False)])
                  else getObjects_loop E (i + 1) rest
                         (retrievedObjects, t @ [DbExec (Get_objects currentChunk False)]))))"

text \<open>
  \<^verbatim>\<open>app ? getCurrentNode(chain, app) : chains[chain].nodeList[0].url\<close>. Reading
  \<^verbatim>\<open>nodeList\<close> of a chain that is not configured, or \<^verbatim>\<open>url\<close> of the first
  entry of an empty list, throws a TypeError (\<open>None\<close>).
\<close>

definition getObjects_node :: "('obj, 'app) apis_env \<Rightarrow> string \<Rightarrow> 'app option \<Rightarrow> string option" where
  "getObjects_node E chain app =
     (case app of
        Some a \<Rightarrow> Some (getCurrentNode E chain a)
      | None \<Rightarrow>
          (case chains E chain of
             None \<Rightarrow> None
           | Some nodeList \<Rightarrow> (case nodeList of [] \<Rightarrow> None | n # _ \<Rightarrow> Some (url n))))"

text \<open>
  \<^verbatim>\<open>getObjects(chain, object_ids, app?)\<close>. The result is \<open>None\<close> when the call
  does not return (the chunking loop does not end).
\<close>

definition getObjects ::
  "('obj, 'app) apis_env \<Rightarrow> string \<Rightarrow> string list \<Rightarrow> 'app option
     \<Rightarrow> ('obj list reply, 'p, 'app option) outcome option" where
  "getObjects E chain object_ids app =
     (case getObjects_node E chain app of
        None \<Rightarrow> Some \<lparr>promise = Pending, trace = [], store = app\<rparr>
      | Some node \<Rightarrow>
          (case init_promise E node of
             Some error \<Rightarrow>
               Some \<lparr>promise = Rejected error,
                     trace = [ApisInstance node (Some 10000), ApisClose]
                             @ (case app of Some a \<Rightarrow> [ChangeURL chain] | None \<Rightarrow> []),
                     store = (case app of Some a \<Rightarrow> Some (changeURL E chain a) | None \<Rightarrow> None)\<rparr>
           | None \<Rightarrow>
               (case sliceIntoChunks object_ids 50 of
                  None \<Rightarrow> None
                | Some chunksOfInputs \<Rightarrow>
                    (case getObjects_loop E 0 chunksOfInputs
                            ([], [ApisInstance node (Some 10000)]) of
                       (retrievedObjects, t) \<Rightarrow>
                         Some (if retrievedObjects \<noteq> []
                               then \<lparr>promise = Resolved (case app of
                                                           Some a \<Rightarrow> ValidResult retrievedObjects
                                                         | None \<Rightarrow> Plain retrievedObjects),
                                     trace = t @ [ApisClose], store = app\<rparr>
                               else \<lparr>promise = Rejected (Error ''Couldn't retrieve objects''),
                                     trace = t @ [ApisClose], store = app\<rparr>)))))"

text \<open>
  What one chunk adds to \<^verbatim>\<open>retrievedObjects\<close>: nothing when the database API is not
  there, when the remote call throws or when it returns no array, the non-null entries of the
  array otherwise.
\<close>

definition contribution :: "('obj, 'app) apis_env \<Rightarrow> nat \<Rightarrow> string list \<Rightarrow> 'obj list" where
  "contribution E i c =
     (if \<not> db_api E then []
      else (case exec E i (Get_objects c False) of
              Inl error \<Rightarrow> []
            | Inr None \<Rightarrow> []
            | Inr (Some xs) \<Rightarrow> filter_not_null xs))"

text \<open>The remote calls of the loop over the chunks, as events.\<close>

definition chunk_calls :: "('obj, 'app) apis_env \<Rightarrow> string list list \<Rightarrow> 'p event list" where
  "chunk_calls E cs = (if db_api E then map (\<lambda>c. DbExec (Get_objects c False)) cs else [])"

text \<open>The chunks \<^verbatim>\<open>arr.slice(i, i + sz)\<close>, \<^verbatim>\<open>arr.slice(i + sz, i + 2 * sz)\<close>, ... in closed form.\<close>

definition chunks_from :: "'a list \<Rightarrow> nat \<Rightarrow> nat \<Rightarrow> 'a list list" where
  "chunks_from arr sz i =
     map (\<lambda>k. take sz (drop (i + k * sz) arr)) [0..<(length arr - i + sz - 1) div sz]"

section \<open>Account lookup: \<^verbatim>\<open>accountSearch\<close>\<close>

text \<open>\<^verbatim>\<open>changeURL(chain, app)\<close>: the store is rotated and the call is recorded.\<close>

definition call_changeURL ::
  "('obj, 'app) apis_env \<Rightarrow> string \<Rightarrow> ('r, 'p, 'app) outcome \<Rightarrow> ('r, 'p, 'app) outcome" where
  "call_changeURL E chain oc = emit (ChangeURL chain) (oc\<lparr>store := changeURL E chain (store oc)\<rparr>)"

text \<open>
  \<^verbatim>\<open>accountSearch(chain, search_string, app)\<close>. The \<^verbatim>\<open>catch\<close> around the
  remote call closes the connection and rejects, but does not return: control falls
  through to the test \<^verbatim>\<open>!object || !object.length\<close> with \<^verbatim>\<open>object\<close>
  undefined. That test returns before \<^verbatim>\<open>Apis.close()\<close> is reached.
\<close>

definition accountSearch ::
  "('obj, 'app) apis_env \<Rightarrow> string \<Rightarrow> string \<Rightarrow> 'app
     \<Rightarrow> ('obj option reply, 'p, 'app) outcome" where
  "accountSearch E chain search_string app =
     (let node = getCurrentNode E chain app;
          oc0 = emit (ApisInstance node None) \<lparr>promise = Pending, trace = [], store = app\<rparr>
      in case init_promise E node of
           Some error \<Rightarrow> reject error (call_changeURL E chain oc0)
         | None \<Rightarrow>
             if \<not> db_api E
             then reject (Error ''no db_api'') (call_changeURL E chain (emit ApisClose oc0))
             else
               (case (case exec E 0 (Get_accounts [search_string]) of
                        Inl error \<Rightarrow>
                          (None,
                           reject error
                             (emit ApisClose (emit (DbExec (Get_accounts [search_string])) oc0)))
                      | Inr r \<Rightarrow> (r, emit (DbExec (Get_accounts [search_string])) oc0)) of
                  (object, oc1) \<Rightarrow>
                    (case object of
                       None \<Rightarrow> reject (Error ''Couldn't retrieve account'') oc1
                     | Some [] \<Rightarrow> reject (Error ''Couldn't retrieve account'') oc1
                     | Some (x # xs) \<Rightarrow> resolve (ValidResult x) (emit ApisClose oc1))))"

section \<open>Aggregate query: \<^verbatim>\<open>getPortfolio\<close>\<close>

record 'obj portfolio =
  balances :: "'obj option list"
  limitOrders :: "'obj option list"

text \<open>
  \<^verbatim>\<open>getPortfolio(chain, accountID, app)\<close>. Neither \<^verbatim>\<open>catch\<close> returns: after
  a failed remote call the connection is closed and the promise rejected, and the function
  goes on to the next statement. An empty array is truthy, so only a missing result
  (\<open>None\<close>) reaches the two "not found" rejections.
\<close>

definition getPortfolio ::
  "('obj, 'app) apis_env \<Rightarrow> string \<Rightarrow> string \<Rightarrow> 'app
     \<Rightarrow> ('obj portfolio reply, 'p, 'app) outcome" where
  "getPortfolio E chain accountID app =
     (let node = getCurrentNode E chain app;
          oc0 = emit (ApisInstance node (Some 4000)) \<lparr>promise = Pending, trace = [], store = app\<rparr>
      in case init_promise E node of
           Some error \<Rightarrow> reject error (call_changeURL E chain oc0)
         | None \<Rightarrow>
             if \<not> db_api E
             then reject (Error ''no db_api'') (call_changeURL E chain (emit ApisClose oc0))
             else
               (case (case exec E 0 (Get_limit_orders_by_account accountID 100) of
                        Inl error \<Rightarrow>
                          (None,
                           reject error
                             (emit ApisClose
                                (emit (DbExec (Get_limit_orders_by_account accountID 100)) oc0)))
                      | Inr r \<Rightarrow>
                          (r, emit (DbExec (Get_limit_orders_by_account accountID 100)) oc0)) of
                  (limitOrders', oc1) \<Rightarrow>
                    (case (case exec E 1 (Get_account_balances accountID []) of
                             Inl error \<Rightarrow>
                               (None,
                                reject error
                                  (emit ApisClose
                                     (emit (DbExec (Get_account_balances accountID [])) oc1)))
                           | Inr r \<Rightarrow>
                               (r, emit (DbExec (Get_account_balances accountID [])) oc1)) of
                       (balances', oc2) \<Rightarrow>
                         (let oc3 = emit ApisClose oc2
                          in case balances' of
                               None \<Rightarrow> reject (Error ''Account balances not found'') oc3
                             | Some b \<Rightarrow>
                                 (case limitOrders' of
                                    None \<Rightarrow>
                                      reject (Error ''Account limit orders not found'') oc3
                                  | Some l \<Rightarrow>
                                      resolve
                                        (ValidResult \<lparr>balances = b, limitOrders = l\<rparr>)
                                        oc3)))))"

text \<open>How often \<^verbatim>\<open>Apis.close()\<close> was called.\<close>

definition closes :: "'p event list \<Rightarrow> nat" where
  "closes t = length (filter (\<lambda>ev. ev = ApisClose) t)"

text \<open>The remote calls of a trace, in order.\<close>

fun rpcs :: "'p event list \<Rightarrow> rpc list" where
  "rpcs [] = []"
| "rpcs (DbExec r # t) = r # rpcs t"
| "rpcs (ev # t) = rpcs t"

section \<open>Transaction build: \<^verbatim>\<open>generateDeepLink\<close>\<close>

text \<open>
  The \<^verbatim>\<open>request\<close> object wrapped around the serialized transaction: the second
  entry of \<^verbatim>\<open>params\<close> is \<^verbatim>\<open>JSON.stringify(tr.toObject())\<close>.
\<close>

record payload =
  payload_method :: string
  params :: "string \<times> string \<times> string list"
  appName :: string
  chain_tag :: string
  browser :: string
  origin :: string

record request =
  req_type :: string
  req_id :: string
  req_payload :: payload

text \<open>
  The \<^verbatim>\<open>TransactionBuilder\<close> of \<^verbatim>\<open>bts-buntime\<close>, \<^verbatim>\<open>uuid\<close> and the
  encoders are not part of the sources at hand. The builder is a mutable object, so what
  one of its methods does may depend on every call made on it before.
  \<^item> \<open>tr_throws\<close> gives, for the calls made so far and the call being made, the error
    the code gets from that call, if any: an error thrown by the call itself or, for
    \<^verbatim>\<open>update_head_block\<close> and \<^verbatim>\<open>set_required_fees\<close>, which are awaited,
    the rejection of the promise they return.
  \<^item> \<open>finalize_rejects\<close> gives, for the calls made before it, the rejection of the
    promise that \<^verbatim>\<open>tr.finalize(Apis)\<close> returns, if any. The code calls
    \<^verbatim>\<open>finalize\<close> without \<^verbatim>\<open>await\<close> and drops that promise.
  \<^item> \<open>uuidv4\<close> is \<^verbatim>\<open>await uuidv4()\<close>, \<open>serialize\<close> is
    \<^verbatim>\<open>JSON.stringify(tr.toObject())\<close>: an error thrown, or the text.
  \<^item> \<open>encode\<close> is \<^verbatim>\<open>encodeURIComponent(JSON.stringify(request))\<close>.
\<close>

record 'p builder_env =
  tr_throws :: "'p tr_call list \<Rightarrow> 'p tr_call \<Rightarrow> error option"
  finalize_rejects :: "'p tr_call list \<Rightarrow> error option"
  uuidv4 :: "error + string"
  serialize :: "'p tr_call list \<Rightarrow> error + string"
  encode :: "request \<Rightarrow> error + string"

text \<open>
  \<^verbatim>\<open>for (let i = 0; i < operations.length; i++) tr.add_type_operation(opType, operations[i])\<close>.
  The loop is outside every \<^verbatim>\<open>try\<close>: the first component of the result is the
  error thrown out of it, the second the calls made on the builder.
\<close>

fun add_type_operations ::
  "'p builder_env \<Rightarrow> string \<Rightarrow> 'p list \<Rightarrow> 'p tr_call list \<Rightarrow> error option \<times> 'p tr_call list" where
  "add_type_operations B opType [] tr = (None, tr)"
| "add_type_operations B opType (operation # rest) tr =
     (case tr_throws B tr (Add_type_operation opType operation) of
        Some error \<Rightarrow> (Some error, tr @ [Add_type_operation opType operation])
      | None \<Rightarrow> add_type_operations B opType rest (tr @ [Add_type_operation opType operation]))"

text \<open>
  The \<^verbatim>\<open>request\<close> object, from the identifier given by \<^verbatim>\<open>uuidv4\<close> and
  the serialized transaction.
\<close>

definition deeplink_request :: "string \<Rightarrow> string \<Rightarrow> string \<Rightarrow> request" where
  "deeplink_request chain uuid tr_json =
     \<lparr>req_type = ''api'',
      req_id = uuid,
      req_payload =
        \<lparr>payload_method = ''injectedCall'',
         params = (''signAndBroadcast'', tr_json, []),
         appName = ''Static Bitshares Astro web app'',
         chain_tag = (if chain = ''bitshares'' then ''BTS'' else ''TEST''),
         browser = ''web browser'',
         origin = ''localhost''\<rparr>\<rparr>"

text \<open>
  \<^verbatim>\<open>generateDeepLink(chain, opType, operations, app)\<close>.
  \<^item> The loop of \<^verbatim>\<open>add_type_operation\<close> and the construction of
    \<^verbatim>\<open>request\<close> (\<^verbatim>\<open>await uuidv4()\<close>, then
    \<^verbatim>\<open>JSON.stringify(tr.toObject())\<close>) are outside every \<^verbatim>\<open>try\<close> and
    before \<^verbatim>\<open>Apis.close()\<close>: an error thrown there leaves the executor without
    settling the promise and without closing the connection.
  \<^item> \<^verbatim>\<open>tr.finalize(Apis)\<close> is not awaited: the \<^verbatim>\<open>catch\<close> around it gets
    only what the call itself throws, and the function goes on whatever becomes of the
    promise it returns. \<open>finalize_rejects B\<close> is therefore not read.
\<close>

definition generateDeepLink ::
  "('obj, 'app) apis_env \<Rightarrow> 'p builder_env \<Rightarrow> string \<Rightarrow> string \<Rightarrow> 'p list \<Rightarrow> 'app
     \<Rightarrow> (string, 'p, 'app) outcome" where
  "generateDeepLink E B chain opType operations app =
     (let node = getCurrentNode E chain app
      in case init_promise E node of
           Some error \<Rightarrow>
             \<lparr>promise = Rejected error,
              trace = [ApisInstance node (Some 10000), ChangeURL chain],
              store = changeURL E chain app\<rparr>
         | None \<Rightarrow>
             (case add_type_operations B opType operations [] of
                (Some error, tr0) \<Rightarrow>
                  \<lparr>promise = Pending,
                   trace = ApisInstance node (Some 10000) # map Tr tr0,
                   store = app\<rparr>
              | (None, tr0) \<Rightarrow>
                  (case tr_throws B tr0 Update_head_block of
                     Some error \<Rightarrow>
                       \<lparr>promise = Rejected error,
                        trace = ApisInstance node (Some 10000)
                                # map Tr (tr0 @ [Update_head_block]) @ [ApisClose],
                        store = app\<rparr>
                   | None \<Rightarrow>
                       (let tr1 = tr0 @ [Update_head_block]
                        in case tr_throws B tr1 Set_required_fees of
                             Some error \<Rightarrow>
                               \<lparr>promise = Rejected error,
                                trace = ApisInstance node (Some 10000)
                                        # map Tr (tr1 @ [Set_required_fees]) @ [ApisClose],
                                store = app\<rparr>
                           | None \<Rightarrow>
                               (let tr2 = tr1 @ [Set_required_fees]
                                in case tr_throws B tr2 (Set_expire_seconds 7200) of
                                     Some error \<Rightarrow>
                                       \<lparr>promise = Rejected error,
                                        trace = ApisInstance node (Some 10000)
                                                # map Tr (tr2 @ [Set_expire_seconds 7200])
                                                @ [ApisClose],
                                        store = app\<rparr>
                                   | None \<Rightarrow>
                                       (let tr3 = tr2 @ [Set_expire_seconds 7200]
                                        in case tr_throws B tr3 Finalize of
                                             Some error \<Rightarrow>
                                               \<lparr>promise = Rejected error,
                                                trace = ApisInstance node (Some 10000)
                                                        # map Tr (tr3 @ [Finalize])
                                                        @ [ApisClose],
                                                store = app\<rparr>
                                           | None \<Rightarrow>
                                               (let tr4 = tr3 @ [Finalize]
                                                in case uuidv4 B of
                                                     Inl error \<Rightarrow>
                                                       \<lparr>promise = Pending,
                                                        trace = ApisInstance node (Some 10000)
                                                                # map Tr tr4,
                                                        store = app\<rparr>
                                                   | Inr uuid \<Rightarrow>
                                                       (case serialize B tr4 of
                                                          Inl error \<Rightarrow>
                                                            \<lparr>promise = Pending,
                                                             trace = ApisInstance node (Some 10000)
                                                                     # map Tr tr4,
                                                             store = app\<rparr>
                                                        | Inr tr_json \<Rightarrow>
                                                            (let request =
                                                                   deeplink_request chain uuid
                                                                     tr_json
                                                             in \<lparr>promise =
                                                                    (case encode B request of
                                                                       Inl error \<Rightarrow>
                                                                         Rejected error
                                                                     | Inr encodedPayload \<Rightarrow>
                                                                         Resolved encodedPayload),
                                                                  trace =
                                                                    ApisInstance node (Some 10000)
                                                                    # map Tr tr4 @ [ApisClose],
                                                                  store = app\<rparr>)))))))))"

text \<open>The builder calls of a trace, in order.\<close>

fun tr_calls :: "'p event list \<Rightarrow> 'p tr_call list" where
  "tr_calls [] = []"
| "tr_calls (Tr c # t) = c # tr_calls t"
| "tr_calls (ev # t) = tr_calls t"

text \<open>The build steps of a transaction with the given operations, in their fixed order.\<close>

definition build_steps :: "string \<Rightarrow> 'p list \<Rightarrow> 'p tr_call list" where
  "build_steps opType operations =
     map (Add_type_operation opType) operations
     @ [Update_head_block, Set_required_fees, Set_expire_seconds 7200, Finalize]"

text \<open>
  Running a list of builder calls in order after the calls \<open>tr\<close>, each one only when
  the one before it did not throw, and stopping at the first that throws: the error thrown,
  if any, and the calls made.
\<close>

fun run_steps ::
  "'p builder_env \<Rightarrow> 'p tr_call list \<Rightarrow> 'p tr_call list \<Rightarrow> error option \<times> 'p tr_call list" where
  "run_steps B tr [] = (None, tr)"
| "run_steps B tr (c # cs) =
     (case tr_throws B tr c of
        Some error \<Rightarrow> (Some error, tr @ [c])
      | None \<Rightarrow> run_steps B (tr @ [c]) cs)"

text \<open>
  How the promise is settled once every step has been made and none has thrown: by what
  \<^verbatim>\<open>uuidv4\<close>, the serialization and the encoder give, for the calls \<open>tr\<close> made on
  the builder.
\<close>

definition settled_by ::
  "'p builder_env \<Rightarrow> string \<Rightarrow> 'p tr_call list \<Rightarrow> string promise" where
  "settled_by B chain tr =
     (case uuidv4 B of
        Inl error \<Rightarrow> Pending
      | Inr uuid \<Rightarrow>
          (case serialize B tr of
             Inl error \<Rightarrow> Pending
           | Inr tr_json \<Rightarrow>
               (case encode B (deeplink_request chain uuid tr_json) of
                  Inl error \<Rightarrow> Rejected error
                | Inr encodedPayload \<Rightarrow> Resolved encodedPayload)))"

section \<open>Account history: \<^verbatim>\<open>getAccountHistory\<close>\<close>

text \<open>
  The response of \<^verbatim>\<open>fetch\<close>: \<open>json\<close> is what \<^verbatim>\<open>await history.json()\<close>
  gives, an error thrown or the document (\<open>None\<close> for a falsy one).
\<close>

record 'j response =
  ok :: bool
  status :: nat
  statusText :: string
  json :: "error + 'j option"

text \<open>
  \<open>fetch\<close> is the HTTP GET of the history service, \<open>number_to_string\<close> the text a
  template literal gives for a number.
\<close>

record 'j http_env =
  fetch :: "string \<Rightarrow> error + 'j response"
  number_to_string :: "nat \<Rightarrow> string"

definition account_history_url ::
  "'j http_env \<Rightarrow> string \<Rightarrow> string \<Rightarrow> nat option \<Rightarrow> nat option \<Rightarrow> string option
     \<Rightarrow> string option \<Rightarrow> string option \<Rightarrow> string option \<Rightarrow> string option \<Rightarrow> string" where
  "account_history_url H chain accountID from' size' from_date to_date sort_by type' agg_field =
     ''https://'' @ (if chain = ''bitshares'' then ''api'' else ''api.testnet'')
     @ ''.bitshares.ws/openexplorer/es/account_history''
     @ ''?account_id='' @ accountID
     @ ''&from_='' @ number_to_string H (case from' of None \<Rightarrow> 0 | Some n \<Rightarrow> n)
     @ ''&size='' @ number_to_string H (case size' of None \<Rightarrow> 100 | Some n \<Rightarrow> n)
     @ ''&from_date='' @ (case from_date of None \<Rightarrow> ''2015-10-10'' | Some d \<Rightarrow> d)
     @ ''&to_date='' @ (case to_date of None \<Rightarrow> ''now'' | Some d \<Rightarrow> d)
     @ ''&sort_by='' @ (case sort_by of None \<Rightarrow> ''-operation_id_num'' | Some f \<Rightarrow> f)
     @ ''&type='' @ (case type' of None \<Rightarrow> ''data'' | Some ty \<Rightarrow> ty)
     @ ''&agg_field='' @ (case agg_field of None \<Rightarrow> ''operation_type'' | Some f \<Rightarrow> f)"

text \<open>
  \<^verbatim>\<open>getAccountHistory(chain, accountID, from?, size?, ...)\<close>. After a failed
  \<^verbatim>\<open>fetch\<close> the \<^verbatim>\<open>catch\<close> rejects and falls through to the test
  \<^verbatim>\<open>!history || !history.ok\<close>, which logs and returns. For a response that is not
  ok the same test logs and returns, and nothing has settled the promise. An error thrown by
  \<^verbatim>\<open>history.json()\<close> is outside every \<^verbatim>\<open>try\<close>.
\<close>

definition getAccountHistory ::
  "'j http_env \<Rightarrow> string \<Rightarrow> string \<Rightarrow> nat option \<Rightarrow> nat option \<Rightarrow> string option
     \<Rightarrow> string option \<Rightarrow> string option \<Rightarrow> string option \<Rightarrow> string option
     \<Rightarrow> 'j reply promise" where
  "getAccountHistory H chain accountID from' size' from_date to_date sort_by type' agg_field =
     (case fetch H (account_history_url H chain accountID from' size' from_date to_date
                      sort_by type' agg_field) of
        Inl error \<Rightarrow> Rejected error
      | Inr history \<Rightarrow>
          if \<not> ok history then Pending
          else (case json history of
                  Inl error \<Rightarrow> Pending
                | Inr None \<Rightarrow> Rejected (Error ''Account history not found'')
                | Inr (Some historyJSON) \<Rightarrow> Resolved (ValidResult historyJSON)))"

section \<open>The routes and their validation of the request\<close>

text \<open>The routes with a \<^verbatim>\<open>:chain\<close> parameter, in the order they are registered.\<close>

datatype route =
    State_currentNodes
  | Api_deeplink
  | Api_blockedAccounts
  | Api_fullAccount
  | Api_orderBook
  | Api_limitOrders
  | Api_accountLookup
  | Api_getAccountBalances
  | Api_getAccountLimitOrders
  | Api_getAccountHistory
  | Api_getPortfolio
  | Api_getObjects
  | Api_getMarketHistory
  | Api_getFeaturedMarkets
  | Api_fetchCreditDeals
  | Cache_allassets
  | Cache_offers
  | Cache_pools
  | Cache_bitassets
  | Cache_pool
  | Cache_dynamic
  | Cache_asset
  | Cache_assets
  | Cache_feeSchedule
  | Cache_marketSearch

text \<open>
  The body of a request: absent, a string, or an object (its keys and values in order).
\<close>

datatype body = NoBody | BodyString string | BodyObject "(string \<times> string) list"

text \<open>
  The path parameters a handler destructures from \<^verbatim>\<open>params\<close>, and the body. A
  route reads only the parameters of its own path.
\<close>

record req =
  chain :: string
  opType :: string
  id' :: string
  quote :: string
  base :: string
  searchInput :: string
  accountID :: string
  account :: string
  body :: body

text \<open>
  What a handler does once its checks have passed: the function of
  \<^verbatim>\<open>./lib/api\<close> or \<^verbatim>\<open>./lib/cache\<close> it calls, with the arguments it passes
  (\<^verbatim>\<open>app\<close> left out), or, for \<^verbatim>\<open>/state/currentNodes\<close>, the read of the store.
\<close>

datatype 'j call =
    CurrentNodes string
  | GenerateDeepLink string string 'j
  | GetBlockedAccounts string
  | GetFullAccounts string string
  | FetchOrderBook string string string
  | FetchLimitOrders string string string
  | AccountSearch string string
  | GetAccountBalances string string
  | GetLimitOrders string string nat
  | GetAccountHistory string string
  | GetPortfolio string string
  | GetObjects string 'j
  | GetMarketTrades string string string string
  | FetchMarkets string
  | FetchCreditDeals string string
  | GetAllAssets string
  | GetActiveOffers string
  | GetPools string
  | GetMinBitassets string
  | GetPool string string
  | GetDynamicData string string
  | GetAsset string string
  | GetAssets string "string list"
  | GetAssetsParsed string 'j
  | GetFeeSchedule string
  | GetMarketSearch string

text \<open>
  \<^verbatim>\<open>JSON.parse\<close> (an error thrown, or the value) and the truthiness of the value
  it gives, as parameters.
\<close>

record 'j json_env =
  JSON_parse :: "body \<Rightarrow> error + 'j"
  truthy :: "'j \<Rightarrow> bool"

text \<open>\<^verbatim>\<open>!x\<close> for a string parameter, and for a body.\<close>

definition missing :: "string \<Rightarrow> bool" where
  "missing x = (x = [])"

fun missing_body :: "body \<Rightarrow> bool" where
  "missing_body NoBody = True"
| "missing_body (BodyString x) = (x = [])"
| "missing_body (BodyObject kvs) = False"

text \<open>\<^verbatim>\<open>Object.keys(body).length === 0\<close>; the keys of a string are its indices.\<close>

fun no_keys :: "body \<Rightarrow> bool" where
  "no_keys NoBody = True"
| "no_keys (BodyString x) = (x = [])"
| "no_keys (BodyObject kvs) = (kvs = [])"

text \<open>\<^verbatim>\<open>s.includes(sub)\<close>\<close>

fun string_includes :: "string \<Rightarrow> string \<Rightarrow> bool" where
  "string_includes [] sub = (sub = [])"
| "string_includes (c # cs) sub =
     (take (length sub) (c # cs) = sub \<or> string_includes cs sub)"

text \<open>\<^verbatim>\<open>chain !== "bitshares" && chain !== "bitshares_testnet"\<close>\<close>

definition invalid_chain :: "string \<Rightarrow> bool" where
  "invalid_chain c = (c \<noteq> ''bitshares'' \<and> c \<noteq> ''bitshares_testnet'')"

text \<open>
  A handler up to the call it makes: \<open>Inl\<close> is the error it throws before calling
  anything, \<open>Inr\<close> the call.
\<close>

fun handler :: "'j json_env \<Rightarrow> route \<Rightarrow> req \<Rightarrow> error + 'j call" where
  "handler J State_currentNodes r =
     (if missing (chain r) \<or> (\<not> missing (chain r) \<and> invalid_chain (chain r))
      then Inl (Error ''Invalid chain'')
      else Inr (CurrentNodes (chain r)))"
| "handler J Api_deeplink r =
     (if missing_body (body r) then Inl (Error ''Missing required fields'')
      else (case JSON_parse J (body r) of
              Inl error \<Rightarrow> Inl error
            | Inr parsed \<Rightarrow>
                if \<not> truthy J parsed \<or> missing (chain r) \<or> missing (opType r)
                then Inl (Error ''Missing required fields'')
                else if invalid_chain (chain r) then Inl (Error ''Invalid chain'')
                else Inr (GenerateDeepLink (chain r) (opType r) parsed)))"
| "handler J Api_blockedAccounts r =
     (if chain r \<noteq> ''bitshares'' then Inl (Error ''Invalid chain'')
      else Inr (GetBlockedAccounts (chain r)))"
| "handler J Api_fullAccount r =
     (if missing (chain r) \<or> missing (id' r) then Inl (Error ''Missing required fields'')
      else if invalid_chain (chain r) then Inl (Error ''Invalid chain'')
      else Inr (GetFullAccounts (chain r) (id' r)))"
| "handler J Api_orderBook r =
     (if missing (chain r) \<or> missing (base r) \<or> missing (quote r)
      then Inl (Error ''Missing required fields'')
      else if invalid_chain (chain r) then Inl (Error ''Invalid chain'')
      else Inr (FetchOrderBook (chain r) (quote r) (base r)))"
| "handler J Api_limitOrders r =
     (if missing (chain r) \<or> missing (base r) \<or> missing (quote r)
      then Inl (Error ''Missing required fields'')
      else if invalid_chain (chain r) then Inl (Error ''Invalid chain'')
      else Inr (FetchLimitOrders (chain r) (base r) (quote r)))"
| "handler J Api_accountLookup r =
     (if missing (chain r) \<or> missing (searchInput r)
      then Inl (Error ''Missing required fields'')
      else if invalid_chain (chain r) then Inl (Error ''Invalid chain'')
      else Inr (AccountSearch (chain r) (searchInput r)))"
| "handler J Api_getAccountBalances r =
     (if missing (chain r) \<or> missing (id' r) then Inl (Error ''Missing required fields'')
      else if invalid_chain (chain r) then Inl (Error ''Invalid chain'')
      else Inr (GetAccountBalances (chain r) (id' r)))"
| "handler J Api_getAccountLimitOrders r =
     (if missing (chain r) \<or> missing (id' r) then Inl (Error ''Missing required fields'')
      else if invalid_chain (chain r) then Inl (Error ''Invalid chain'')
      else Inr (GetLimitOrders (chain r) (id' r) 100))"
| "handler J Api_getAccountHistory r =
     (if missing (chain r) \<or> missing (id' r) then Inl (Error ''Missing required fields'')
      else if invalid_chain (chain r) then Inl (Error ''Invalid chain'')
      else Inr (GetAccountHistory (chain r) (id' r)))"
| "handler J Api_getPortfolio r =
     (if missing (chain r) \<or> missing (id' r) then Inl (Error ''Missing required fields'')
      else if invalid_chain (chain r) then Inl (Error ''Invalid chain'')
      else Inr (GetPortfolio (chain r) (id' r)))"
| "handler J Api_getObjects r =
     (if missing_body (body r) \<or> missing (chain r) then Inl (Error ''Missing required fields'')
      else if invalid_chain (chain r) then Inl (Error ''Invalid chain'')
      else (case JSON_parse J (body r) of
              Inl error \<Rightarrow> Inl error
            | Inr objects \<Rightarrow> Inr (GetObjects (chain r) objects)))"
| "handler J Api_getMarketHistory r =
     (if missing (chain r) \<or> missing (base r) \<or> missing (quote r) \<or> missing (accountID r)
      then Inl (Error ''Missing required fields'')
      else if \<not> string_includes (base r) ''1.3.'' \<or> \<not> string_includes (quote r) ''1.3.''
      then Inl (Error ''Invalid asset IDs'')
      else if invalid_chain (chain r) then Inl (Error ''Invalid chain'')
      else Inr (GetMarketTrades (chain r) (quote r) (base r) (accountID r)))"
| "handler J Api_getFeaturedMarkets r =
     (if missing (chain r) then Inl (Error ''Missing required fields'')
      else if invalid_chain (chain r) then Inl (Error ''Invalid chain'')
      else Inr (FetchMarkets (chain r)))"
| "handler J Api_fetchCreditDeals r =
     (if missing (chain r) \<or> missing (account r) then Inl (Error ''Missing required fields'')
      else if invalid_chain (chain r) then Inl (Error ''Invalid chain'')
      else Inr (FetchCreditDeals (chain r) (account r)))"
| "handler J Cache_allassets r =
     (if invalid_chain (chain r) then Inl (Error ''Invalid chain'')
      else Inr (GetAllAssets (chain r)))"
| "handler J Cache_offers r =
     (if invalid_chain (chain r) then Inl (Error ''Invalid chain'')
      else Inr (GetActiveOffers (chain r)))"
| "handler J Cache_pools r = Inr (GetPools (chain r))"
| "handler J Cache_bitassets r = Inr (GetMinBitassets (chain r))"
| "handler J Cache_pool r =
     (if missing (chain r) \<or> invalid_chain (chain r) \<or> missing (id' r)
      then Inl (Error ''Missing required fields'')
      else Inr (GetPool (chain r) (id' r)))"
| "handler J Cache_dynamic r =
     (if missing (chain r) \<or> invalid_chain (chain r) \<or> missing (id' r)
      then Inl (Error ''Missing required fields'')
      else Inr (GetDynamicData (chain r) (id' r)))"
| "handler J Cache_asset r =
     (if missing (chain r) \<or> invalid_chain (chain r) \<or> missing (id' r)
      then Inl (Error ''Missing required fields'')
      else Inr (GetAsset (chain r) (id' r)))"
| "handler J Cache_assets r =
     (if missing_body (body r) \<or> no_keys (body r) \<or> missing (chain r)
      then Inl (Error ''Missing required fields'')
      else if invalid_chain (chain r) then Inl (Error ''Invalid chain'')
      else (case body r of
              BodyObject kvs \<Rightarrow> Inr (GetAssets (chain r) (map snd kvs))
            | b \<Rightarrow> (case JSON_parse J b of
                      Inl error \<Rightarrow> Inl error
                    | Inr assetIDs \<Rightarrow> Inr (GetAssetsParsed (chain r) assetIDs))))"
| "handler J Cache_feeSchedule r =
     (if missing (chain r) \<or> invalid_chain (chain r)
      then Inl (Error ''Missing required fields'')
      else Inr (GetFeeSchedule (chain r)))"
| "handler J Cache_marketSearch r =
     (if missing (chain r) \<or> invalid_chain (chain r)
      then Inl (Error ''Missing required fields'')
      else Inr (GetMarketSearch (chain r)))"

text \<open>
  The checks of the handlers that do not concern the chain all pass: every other path
  parameter is present, the asset identifiers have the form the market history route asks
  for, and the body is present, has keys and parses to a truthy value.
\<close>

definition other_params_ok :: "'j json_env \<Rightarrow> req \<Rightarrow> bool" where
  "other_params_ok J r =
     (\<not> missing (opType r) \<and> \<not> missing (id' r) \<and> \<not> missing (quote r) \<and> \<not> missing (base r)
      \<and> \<not> missing (searchInput r) \<and> \<not> missing (accountID r) \<and> \<not> missing (account r)
      \<and> string_includes (base r) ''1.3.'' \<and> string_includes (quote r) ''1.3.''
      \<and> \<not> missing_body (body r) \<and> \<not> no_keys (body r)
      \<and> (case JSON_parse J (body r) of Inl error \<Rightarrow> False | Inr parsed \<Rightarrow> truthy J parsed))"

text \<open>
  The routes whose handler compares \<^verbatim>\<open>chain\<close> with both literals. Of the other
  three, \<^verbatim>\<open>/api/blockedAccounts\<close> compares it with \<^verbatim>\<open>"bitshares"\<close> alone,
  and \<^verbatim>\<open>/cache/pools\<close> and \<^verbatim>\<open>/cache/bitassets\<close> do not look at it.
\<close>

fun checks_both_chains :: "route \<Rightarrow> bool" where
  "checks_both_chains Api_blockedAccounts = False"
| "checks_both_chains Cache_pools = False"
| "checks_both_chains Cache_bitassets = False"
| "checks_both_chains rt = True"

section \<open>Concrete scenarios\<close>

text \<open>
  An environment with two configured nodes for \<^verbatim>\<open>bitshares\<close>, a store that is the
  list of node addresses in their current order, and the given behaviour of the remote
  calls and of the connection.
\<close>

definition demo_env :: "(nat \<Rightarrow> rpc \<Rightarrow> error + string option list option) \<Rightarrow> (string \<Rightarrow> error option)
   \<Rightarrow> (string, string list) apis_env" where
  "demo_env ex ini =
     \<lparr>chains = (\<lambda>c. if c = ''bitshares''
                     then Some [\<lparr>url = ''wss://node.xbts.io/ws''\<rparr>, \<lparr>url = ''wss://api.bts.mobi/ws''\<rparr>]
                     else None),
      getCurrentNode = (\<lambda>c a. (case a of [] \<Rightarrow> [] | u # us \<Rightarrow> u)),
      changeURL = (\<lambda>c a. rotate1 a),
      init_promise = ini,
      db_api = True,
      exec = ex\<rparr>"

definition ids120 :: "string list" where
  "ids120 = map (\<lambda>k. ''1.2.'' @ replicate k (CHR ''7'')) [0..<120]"

definition echo_exec :: "nat \<Rightarrow> rpc \<Rightarrow> error + string option list option" where
  "echo_exec i r = (case r of Get_objects c f \<Rightarrow> Inr (Some (map Some c)) | _ \<Rightarrow> Inr None)"

definition flaky_exec :: "nat \<Rightarrow> rpc \<Rightarrow> error + string option list option" where
  "flaky_exec i r = (if i = 1 then Inl (Error ''request timed out'') else echo_exec i r)"

definition missing_exec :: "nat \<Rightarrow> rpc \<Rightarrow> error + string option list option" where
  "missing_exec i r =
     (case r of
        Get_objects c f \<Rightarrow> Inr (Some (map (\<lambda>x. if x = ''missing'' then None else Some (''obj '' @ x)) c))
      | _ \<Rightarrow> Inr None)"

definition connected :: "string \<Rightarrow> error option" where
  "connected u = None"

definition refused :: "string \<Rightarrow> error option" where
  "refused u = Some (Error ''connection refused'')"


text \<open>A node that has an order and a balance for every account.\<close>

definition portfolio_exec :: "nat \<Rightarrow> rpc \<Rightarrow> error + string option list option" where
  "portfolio_exec i r =
     (case r of
        Get_limit_orders_by_account a n \<Rightarrow> Inr (Some [Some ''1.7.1''])
      | Get_account_balances a assets \<Rightarrow> Inr (Some [Some ''1.3.0''])
      | _ \<Rightarrow> Inr None)"

text \<open>A node whose balances query throws, and one whose limit orders query throws.\<close>

definition balances_fail_exec :: "nat \<Rightarrow> rpc \<Rightarrow> error + string option list option" where
  "balances_fail_exec i r =
     (case r of
        Get_account_balances a assets \<Rightarrow> Inl (Error ''balances unavailable'')
      | _ \<Rightarrow> portfolio_exec i r)"

definition orders_fail_exec :: "nat \<Rightarrow> rpc \<Rightarrow> error + string option list option" where
  "orders_fail_exec i r =
     (case r of
        Get_limit_orders_by_account a n \<Rightarrow> Inl (Error ''orders unavailable'')
      | _ \<Rightarrow> portfolio_exec i r)"

text \<open>A node that knows no account: every query returns an empty array.\<close>

definition empty_exec :: "nat \<Rightarrow> rpc \<Rightarrow> error + string option list option" where
  "empty_exec i r = Inr (Some [])"

definition two_nodes :: "string list" where
  "two_nodes = [''wss://node.xbts.io/ws'', ''wss://api.bts.mobi/ws'']"

text \<open>
  A builder with the given errors of its calls and of the promise of
  \<^verbatim>\<open>finalize\<close>; it serializes to a fixed text.
\<close>

definition demo_builder ::
  "('p tr_call list \<Rightarrow> 'p tr_call \<Rightarrow> error option) \<Rightarrow> ('p tr_call list \<Rightarrow> error option)
     \<Rightarrow> 'p builder_env" where
  "demo_builder throws rejects =
     \<lparr>tr_throws = throws,
      finalize_rejects = rejects,
      uuidv4 = Inr ''00000000-0000-4000-8000-000000000000'',
      serialize = (\<lambda>tr. Inr ''{}''),
      encode = (\<lambda>request. Inr (''%7B'' @ req_id request @ ''%7D''))\<rparr>"

text \<open>No call throws; \<^verbatim>\<open>set_required_fees\<close> throws.\<close>

definition never_throws :: "string tr_call list \<Rightarrow> string tr_call \<Rightarrow> error option" where
  "never_throws tr c = None"

definition fees_throw :: "string tr_call list \<Rightarrow> string tr_call \<Rightarrow> error option" where
  "fees_throw tr c = (if c = Set_required_fees then Some (Error ''insufficient fee pool'') else None)"

text \<open>
  The promise of \<^verbatim>\<open>finalize\<close> is fulfilled; it is rejected, as for a transaction
  that cannot be finalized.
\<close>

definition finalize_fulfilled :: "string tr_call list \<Rightarrow> error option" where
  "finalize_fulfilled tr = None"

definition finalize_rejected :: "string tr_call list \<Rightarrow> error option" where
  "finalize_rejected tr = Some (Error ''finalize failed'')"

text \<open>A history service that answers with status 500, and one that cannot be reached.\<close>

definition http_500 :: "string http_env" where
  "http_500 =
     \<lparr>fetch = (\<lambda>u. Inr \<lparr>ok = False, status = 500, statusText = ''Internal Server Error'',
                           json = Inr None\<rparr>),
      number_to_string = (\<lambda>n. if n = 0 then ''0'' else ''100'')\<rparr>"

definition http_down :: "string http_env" where
  "http_down =
     \<lparr>fetch = (\<lambda>u. Inl (Error ''fetch failed'')),
      number_to_string = (\<lambda>n. if n = 0 then ''0'' else ''100'')\<rparr>"

text \<open>A request with every path parameter present, for the chain \<open>c\<close>.\<close>

definition demo_req :: "string \<Rightarrow> req" where
  "demo_req c =
     \<lparr>chain = c, opType = ''transfer'', id' = ''1.2.100'', quote = ''1.3.0'', base = ''1.3.121'',
      searchInput = ''alice'', accountID = ''1.2.100'', account = ''1.2.100'',
      body = BodyString ''[]''\<rparr>"

text \<open>A parser that accepts every string body and gives a truthy value.\<close>

definition demo_json :: "string json_env" where
  "demo_json =
     \<lparr>JSON_parse = (\<lambda>b. case b of BodyString x \<Rightarrow> Inr x | _ \<Rightarrow> Inl (Error ''SyntaxError'')),
      truthy = (\<lambda>j. True)\<rparr>"


section \<open>Chunking and the batch object fetch\<close>

lemma ceil_step:
  fixes sz i n :: nat
  assumes "0 < sz" "i < n"
  shows "(n - i + sz - 1) div sz = Suc ((n - (i + sz) + sz - 1) div sz)"
proof (cases "i + sz \<le> n")
  case True
  then have "n - i + sz - 1 = (n - (i + sz) + sz - 1) + sz" using assms by linarith
  then have "(n - i + sz - 1) div sz = (n - (i + sz) + sz - 1) div sz + 1"
    using assms(1) by (simp only: div_add_self2)
  then show ?thesis by simp
next
  case False
  then have a: "n - (i + sz) = 0" by linarith
  have b: "(sz - 1) div sz = 0" using assms(1) by (intro div_less) linarith
  have c: "sz * 1 \<le> n - i + sz - 1" using assms False by simp
  have d: "n - i + sz - 1 < sz * Suc 1" using assms False by simp
  have "(n - i + sz - 1) div sz = 1"
    using c d by (rule div_nat_eqI)
  then show ?thesis using a b by (simp only: add_0 One_nat_def)
qed

lemma chunks_from_step:
  assumes "0 < sz" "i < length arr"
  shows "chunks_from arr sz i = take sz (drop i arr) # chunks_from arr sz (i + sz)"
proof -
  let ?m = "(length arr - (i + sz) + sz - 1) div sz"
  have "chunks_from arr sz i = map (\<lambda>k. take sz (drop (i + k * sz) arr)) [0..<Suc ?m]"
    unfolding chunks_from_def by (simp only: ceil_step[OF assms])
  also have "[0..<Suc ?m] = 0 # map Suc [0..<?m]"
    by (simp only: upt_conv_Cons[OF zero_less_Suc] map_Suc_upt)
  also have "map (\<lambda>k. take sz (drop (i + k * sz) arr)) (0 # map Suc [0..<?m]) =
        take sz (drop i arr) # map (\<lambda>k. take sz (drop (i + sz + k * sz) arr)) [0..<?m]"
    by (simp add: comp_def add.assoc)
  finally show ?thesis unfolding chunks_from_def .
qed

lemma chunks_from_done:
  assumes "length arr \<le> i" "0 < sz"
  shows "chunks_from arr sz i = []"
proof -
  have "length arr - i + sz - 1 < sz" using assms by linarith
  then have "(length arr - i + sz - 1) div sz = 0" by (rule div_less)
  then show ?thesis unfolding chunks_from_def by simp
qed

lemma sliceIntoChunks_loop_eq:
  "0 < sz \<Longrightarrow> sliceIntoChunks_loop arr sz i chunks = Some (chunks @ chunks_from arr sz i)"
proof (induction "length arr - i" arbitrary: i chunks rule: less_induct)
  case less
  show ?case
  proof (cases "i < length arr")
    case True
    then have m: "length arr - (i + sz) < length arr - i" using less.prems by linarith
    have "sliceIntoChunks_loop arr sz i chunks =
          sliceIntoChunks_loop arr sz (i + sz) (chunks @ [take sz (drop i arr)])"
      using True by (subst sliceIntoChunks_loop.simps) (simp only: if_True)
    also have "\<dots> = Some ((chunks @ [take sz (drop i arr)]) @ chunks_from arr sz (i + sz))"
      by (rule less.hyps[OF m less.prems])
    also have "\<dots> = Some (chunks @ chunks_from arr sz i)"
      by (simp only: chunks_from_step[OF less.prems True] append_assoc append_Cons append_Nil)
    finally show ?thesis .
  next
    case False
    then have le: "length arr \<le> i" by simp
    have "sliceIntoChunks_loop arr sz i chunks = Some chunks"
      using False by (subst sliceIntoChunks_loop.simps) (simp only: if_False)
    then show ?thesis by (simp only: chunks_from_done[OF le less.prems] append_Nil2)
  qed
qed

lemma sliceIntoChunks_eq: "0 < sz \<Longrightarrow> sliceIntoChunks arr sz = Some (chunks_from arr sz 0)"
  unfolding sliceIntoChunks_def by (simp only: sliceIntoChunks_loop_eq append_Nil)

lemma chunks_from_props:
  assumes "0 < sz"
  shows "concat (chunks_from arr sz i) = drop i arr
       \<and> (\<forall>c \<in> set (chunks_from arr sz i). c \<noteq> [] \<and> length c \<le> sz)
       \<and> (\<forall>c \<in> set (butlast (chunks_from arr sz i)). length c = sz)"
proof (induction "length arr - i" arbitrary: i rule: less_induct)
  case less
  show ?case
  proof (cases "i < length arr")
    case True
    then have m: "length arr - (i + sz) < length arr - i" using assms by linarith
    note IH = less.hyps[OF m]
    note st = chunks_from_step[OF assms True]
    have c1: "concat (chunks_from arr sz i) = drop i arr"
    proof -
      have "concat (chunks_from arr sz i) = take sz (drop i arr) @ drop (i + sz) arr"
        using IH by (simp only: st concat.simps)
      also have "drop (i + sz) arr = drop sz (drop i arr)" by (simp add: add.commute)
      finally show ?thesis by (simp only: append_take_drop_id)
    qed
    have hd_ok: "take sz (drop i arr) \<noteq> [] \<and> length (take sz (drop i arr)) \<le> sz"
      using True assms by simp
    have c2: "\<forall>c \<in> set (chunks_from arr sz i). c \<noteq> [] \<and> length c \<le> sz"
      using IH hd_ok by (simp only: st set_simps ball_simps) simp
    have c3: "\<forall>c \<in> set (butlast (chunks_from arr sz i)). length c = sz"
    proof (cases "i + sz < length arr")
      case True
      then have "length (take sz (drop i arr)) = sz" by simp
      then show ?thesis using IH by (simp add: st)
    next
      case False
      then have "chunks_from arr sz (i + sz) = []" using assms by (simp add: chunks_from_done)
      then show ?thesis by (simp add: st)
    qed
    from c1 c2 c3 show ?thesis by blast
  next
    case False
    then have "chunks_from arr sz i = []" using assms by (simp add: chunks_from_done)
    then show ?thesis using False by simp
  qed
qed

lemma chunks_from_120:
  assumes "length arr = 120"
  shows "map length (chunks_from arr 50 0) = [50, 50, 20]"
proof -
  have "[0..<(3::nat)] = [0, 1, 2]" by (simp add: upt_rec)
  then show ?thesis unfolding chunks_from_def using assms by simp
qed

lemma getObjects_loop_eq:
  "getObjects_loop E i cs (acc, t) =
     (acc @ concat (map (\<lambda>(k, c). contribution E k c) (enumerate i cs)),
      t @ chunk_calls E cs)"
proof (induction cs arbitrary: i acc t)
  case Nil
  show ?case by (simp add: chunk_calls_def)
next
  case (Cons c cs)
  show ?case
  proof (cases "db_api E")
    case False
    then show ?thesis by (simp add: Cons.IH contribution_def chunk_calls_def)
  next
    case True
    then show ?thesis
      by (cases "exec E i (Get_objects c False)")
         (simp_all add: Cons.IH contribution_def chunk_calls_def filter_not_null_def
            split: option.split)
  qed
qed

lemma chunk_calls_db_api:
  "db_api E \<Longrightarrow> chunk_calls E cs = map (\<lambda>c. DbExec (Get_objects c False)) cs"
  by (simp add: chunk_calls_def)

lemma filter_not_null_concat:
  "filter_not_null (concat xss) = concat (map filter_not_null xss)"
  unfolding filter_not_null_def by (induction xss) simp_all

lemma contribution_pointwise:
  assumes "db_api E" and "\<forall>i c. exec E i (Get_objects c False) = Inr (Some (map g c))"
  shows "concat (map (\<lambda>(k, c). contribution E k c) (enumerate i cs))
         = filter_not_null (map g (concat cs))"
proof (induction cs arbitrary: i)
  case Nil
  show ?case by (simp add: filter_not_null_def)
next
  case (Cons c cs)
  have "contribution E i c = filter_not_null (map g c)"
    using assms by (simp add: contribution_def)
  then show ?case using Cons.IH by (simp add: filter_not_null_def)
qed

lemma getObjects_connected:
  assumes "getObjects_node E chn app = Some nd" "init_promise E nd = None"
  shows "getObjects E chn object_ids app =
     Some \<lparr>promise =
             (if concat (map (\<lambda>(k, c). contribution E k c)
                          (enumerate 0 (chunks_from object_ids 50 0))) = []
              then Rejected (Error ''Couldn't retrieve objects'')
              else Resolved
                     (case app of
                        Some a \<Rightarrow>
                          ValidResult (concat (map (\<lambda>(k, c). contribution E k c)
                                         (enumerate 0 (chunks_from object_ids 50 0))))
                      | None \<Rightarrow>
                          Plain (concat (map (\<lambda>(k, c). contribution E k c)
                                   (enumerate 0 (chunks_from object_ids 50 0)))))),
           trace = ApisInstance nd (Some 10000)
                   # chunk_calls E (chunks_from object_ids 50 0) @ [ApisClose],
           store = app\<rparr>"
proof -
  have s: "sliceIntoChunks object_ids 50 = Some (chunks_from object_ids 50 0)"
    by (rule sliceIntoChunks_eq) simp
  show ?thesis
    unfolding getObjects_def
    by (simp only: assms s option.case getObjects_loop_eq prod.case append_Nil append_Cons
          if_not_P if_P split: if_split)
       simp
qed

text \<open>
  Claim C3. Once the connection is open and the database API is there,
  \<^verbatim>\<open>getObjects\<close> returns, and it has split
  the identifiers into consecutive chunks: the chunks concatenated are the input, every chunk
  is non-empty and has at most 50 elements, every chunk but the last has exactly 50. It has
  made exactly one \<^verbatim>\<open>get_objects\<close> call per chunk, in order, with the flag
  \<^verbatim>\<open>false\<close>, between opening and closing the connection. For 120 identifiers the
  chunks have sizes 50, 50 and 20. When the node answers every chunk entry by entry (\<open>g\<close>
  gives the object of an identifier, or null), the merged result is the objects of the
  identifiers in input order.
\<close>

theorem getObjects_chunked_calls:
  assumes "getObjects_node E chn app = Some nd" and "init_promise E nd = None"
    and "db_api E"
  shows "\<exists>oc chunks. getObjects E chn object_ids app = Some oc
     \<and> sliceIntoChunks object_ids 50 = Some chunks
     \<and> concat chunks = object_ids
     \<and> (\<forall>c \<in> set chunks. c \<noteq> [] \<and> length c \<le> 50)
     \<and> (\<forall>c \<in> set (butlast chunks). length c = 50)
     \<and> trace oc = ApisInstance nd (Some 10000)
                  # map (\<lambda>c. DbExec (Get_objects c False)) chunks @ [ApisClose]
     \<and> (length object_ids = 120 \<longrightarrow> map length chunks = [50, 50, 20])
     \<and> ((\<forall>i c. exec E i (Get_objects c False) = Inr (Some (map g c))) \<longrightarrow>
          promise oc =
            (if filter_not_null (map g object_ids) = []
             then Rejected (Error ''Couldn't retrieve objects'')
             else Resolved (case app of
                              Some a \<Rightarrow> ValidResult (filter_not_null (map g object_ids))
                            | None \<Rightarrow> Plain (filter_not_null (map g object_ids)))))"
proof -
  let ?chunks = "chunks_from object_ids 50 0"
  have p: "concat ?chunks = object_ids"
          "\<forall>c \<in> set ?chunks. c \<noteq> [] \<and> length c \<le> 50"
          "\<forall>c \<in> set (butlast ?chunks). length c = 50"
    using chunks_from_props[of 50 object_ids 0] by simp_all
  note eq = getObjects_connected[OF assms(1,2), of object_ids]
  have r: "(\<forall>i c. exec E i (Get_objects c False) = Inr (Some (map g c))) \<longrightarrow>
          promise (the (getObjects E chn object_ids app)) =
            (if filter_not_null (map g object_ids) = []
             then Rejected (Error ''Couldn't retrieve objects'')
             else Resolved (case app of
                              Some a \<Rightarrow> ValidResult (filter_not_null (map g object_ids))
                            | None \<Rightarrow> Plain (filter_not_null (map g object_ids))))"
  proof
    assume a: "\<forall>i c. exec E i (Get_objects c False) = Inr (Some (map g c))"
    show "promise (the (getObjects E chn object_ids app)) =
            (if filter_not_null (map g object_ids) = []
             then Rejected (Error ''Couldn't retrieve objects'')
             else Resolved (case app of
                              Some a \<Rightarrow> ValidResult (filter_not_null (map g object_ids))
                            | None \<Rightarrow> Plain (filter_not_null (map g object_ids))))"
      unfolding eq contribution_pointwise[OF assms(3) a] p(1) by simp
  qed
  have t: "trace (the (getObjects E chn object_ids app)) = ApisInstance nd (Some 10000)
                  # map (\<lambda>c. DbExec (Get_objects c False)) ?chunks @ [ApisClose]"
    unfolding eq by (simp add: chunk_calls_db_api[OF assms(3)])
  have e: "getObjects E chn object_ids app = Some (the (getObjects E chn object_ids app))"
    unfolding eq by simp
  have sl: "sliceIntoChunks object_ids 50 = Some ?chunks" by (rule sliceIntoChunks_eq) simp
  have l: "length object_ids = 120 \<longrightarrow> map length ?chunks = [50, 50, 20]"
    using chunks_from_120[of object_ids] by blast
  show ?thesis
    by (intro exI[of _ "the (getObjects E chn object_ids app)"] exI[of _ ?chunks] conjI)
       (rule e sl p t l r)+
qed

lemma rpcs_map_DbExec: "rpcs (map (\<lambda>c. DbExec (f c)) cs @ t) = map f cs @ rpcs t"
  by (induction cs) simp_all

lemma getObjects_node_None:
  "chains E chn = Some (n # ns) \<Longrightarrow> getObjects_node E chn None = Some (url n)"
  by (simp add: getObjects_node_def)

lemma getObjects_node_Some: "getObjects_node E chn (Some a) = Some (getCurrentNode E chn a)"
  by (simp add: getObjects_node_def)

lemma getObjects_connect_failed:
  assumes "getObjects_node E chn app = Some nd" "init_promise E nd = Some err"
  shows "getObjects E chn object_ids app =
     Some \<lparr>promise = Rejected err,
           trace = [ApisInstance nd (Some 10000), ApisClose]
                   @ (case app of Some a \<Rightarrow> [ChangeURL chn] | None \<Rightarrow> []),
           store = (case app of Some a \<Rightarrow> Some (changeURL E chn a) | None \<Rightarrow> None)\<rparr>"
  unfolding getObjects_def by (simp only: assms option.case)

lemma contribution_failed: "isl (exec E k (Get_objects c False)) \<Longrightarrow> contribution E k c = []"
  by (cases "exec E k (Get_objects c False)") (simp_all add: contribution_def)

lemma contribution_no_db_api: "\<not> db_api E \<Longrightarrow> contribution E k c = []"
  by (simp add: contribution_def)

lemma rpcs_chunk_calls:
  "rpcs (ApisInstance nd t # chunk_calls E cs @ [ApisClose])
     = (if db_api E then map (\<lambda>c. Get_objects c False) cs else [])"
  by (simp add: chunk_calls_def rpcs_map_DbExec)

text \<open>
  Claim C4. Once the connection is open, every chunk is processed whatever became of the
  earlier ones: with the database API there, a call is made for every chunk; without it, no
  call is made and no chunk contributes. A chunk whose call throws contributes nothing, and
  the merged result is the contributions of the chunks in order. The promise is rejected with
  the message \<^verbatim>\<open>Couldn't retrieve objects\<close> if and only if the merged result is
  empty, and is resolved with the merged result whenever that is not empty.
\<close>

theorem getObjects_partial_failure:
  assumes "getObjects_node E chn app = Some nd" and "init_promise E nd = None"
  shows "\<exists>oc chunks. getObjects E chn object_ids app = Some oc
     \<and> sliceIntoChunks object_ids 50 = Some chunks
     \<and> rpcs (trace oc) = (if db_api E then map (\<lambda>c. Get_objects c False) chunks else [])
     \<and> (\<forall>k<length chunks. isl (exec E k (Get_objects (chunks ! k) False)) \<or> \<not> db_api E
           \<longrightarrow> contribution E k (chunks ! k) = [])
     \<and> (promise oc = Rejected (Error ''Couldn't retrieve objects'')
          \<longleftrightarrow> concat (map (\<lambda>(k, c). contribution E k c) (enumerate 0 chunks)) = [])
     \<and> (concat (map (\<lambda>(k, c). contribution E k c) (enumerate 0 chunks)) \<noteq> []
          \<longrightarrow> promise oc =
               Resolved (case app of
                           Some a \<Rightarrow> ValidResult (concat (map (\<lambda>(k, c). contribution E k c)
                                                       (enumerate 0 chunks)))
                         | None \<Rightarrow> Plain (concat (map (\<lambda>(k, c). contribution E k c)
                                                (enumerate 0 chunks)))))"
proof -
  let ?chunks = "chunks_from object_ids 50 0"
  let ?oc = "the (getObjects E chn object_ids app)"
  note eq = getObjects_connected[OF assms, of object_ids]
  have e: "getObjects E chn object_ids app = Some ?oc"
    unfolding eq by simp
  have sl: "sliceIntoChunks object_ids 50 = Some ?chunks" by (rule sliceIntoChunks_eq) simp
  have tr: "trace ?oc = ApisInstance nd (Some 10000) # chunk_calls E ?chunks @ [ApisClose]"
    unfolding eq by simp
  have t: "rpcs (trace ?oc) = (if db_api E then map (\<lambda>c. Get_objects c False) ?chunks else [])"
    unfolding tr by (rule rpcs_chunk_calls)
  have f: "\<forall>k<length ?chunks. isl (exec E k (Get_objects (?chunks ! k) False)) \<or> \<not> db_api E
           \<longrightarrow> contribution E k (?chunks ! k) = []"
    using contribution_failed contribution_no_db_api by blast
  have r1: "promise ?oc = Rejected (Error ''Couldn't retrieve objects'')
          \<longleftrightarrow> concat (map (\<lambda>(k, c). contribution E k c) (enumerate 0 ?chunks)) = []"
    unfolding eq by simp
  have r2: "concat (map (\<lambda>(k, c). contribution E k c) (enumerate 0 ?chunks)) \<noteq> []
          \<longrightarrow> promise ?oc =
               Resolved (case app of
                           Some a \<Rightarrow> ValidResult (concat (map (\<lambda>(k, c). contribution E k c)
                                                       (enumerate 0 ?chunks)))
                         | None \<Rightarrow> Plain (concat (map (\<lambda>(k, c). contribution E k c)
                                                (enumerate 0 ?chunks))))"
    unfolding eq by simp
  show ?thesis
    by (intro exI[of _ ?oc] exI[of _ ?chunks] conjI) (rule e sl t f r1 r2)+
qed

lemma map_Some_filter_not_null:
  "map Some (filter_not_null xs) = filter (\<lambda>x. x \<noteq> None) xs"
  unfolding filter_not_null_def by (induction xs) auto

lemma contribution_all_succeed:
  assumes "\<forall>k<length cs. exec E (i + k) (Get_objects (cs ! k) False) = Inr (Some (got (i + k)))"
    and db: "db_api E"
  shows "concat (map (\<lambda>(k, c). contribution E k c) (enumerate i cs))
         = filter_not_null (concat (map got [i..<i + length cs]))"
  using assms(1)
proof (induction cs arbitrary: i)
  case Nil
  show ?case by (simp add: filter_not_null_def)
next
  case (Cons c cs)
  have h: "exec E i (Get_objects c False) = Inr (Some (got i))"
    using Cons.prems[rule_format, of 0] by simp
  have "\<forall>k<length cs. exec E (Suc i + k) (Get_objects (cs ! k) False) = Inr (Some (got (Suc i + k)))"
  proof (intro allI impI)
    fix k assume "k < length cs"
    then show "exec E (Suc i + k) (Get_objects (cs ! k) False) = Inr (Some (got (Suc i + k)))"
      using Cons.prems[rule_format, of "Suc k"] by simp
  qed
  from Cons.IH[OF this] have ih:
    "concat (map (\<lambda>(k, c). contribution E k c) (enumerate (Suc i) cs))
       = filter_not_null (concat (map got [Suc i..<Suc i + length cs]))" .
  have c: "contribution E i c = filter_not_null (got i)"
    using h db by (simp add: contribution_def)
  have "i < i + length (c # cs)" by simp
  from upt_conv_Cons[OF this]
  have u: "[i..<i + length (c # cs)] = i # [Suc i..<Suc i + length cs]" by simp
  have "concat (map (\<lambda>(k, c). contribution E k c) (enumerate i (c # cs)))
        = contribution E i c @ concat (map (\<lambda>(k, c). contribution E k c) (enumerate (Suc i) cs))"
    by simp
  also have "\<dots> = filter_not_null (got i)
                  @ filter_not_null (concat (map got [Suc i..<Suc i + length cs]))"
    by (simp only: c ih)
  also have "\<dots> = filter_not_null (got i @ concat (map got [Suc i..<Suc i + length cs]))"
    by (simp add: filter_not_null_def)
  also have "\<dots> = filter_not_null (concat (map got (i # [Suc i..<Suc i + length cs])))"
    by simp
  finally show ?case unfolding u .
qed

text \<open>
  Claim C5. When every chunk call is made and succeeds, with the array \<open>got k\<close> for
  chunk \<open>k\<close>,
  the result is the non-null entries of these arrays, in order: the null entries are
  filtered out before merging.
\<close>

theorem getObjects_filters_null:
  assumes "getObjects_node E chn app = Some nd" and "init_promise E nd = None"
    and "sliceIntoChunks object_ids 50 = Some chunks"
    and "\<forall>k<length chunks. exec E k (Get_objects (chunks ! k) False) = Inr (Some (got k))"
    and "db_api E"
  shows "\<exists>oc. getObjects E chn object_ids app = Some oc
     \<and> map Some (filter_not_null (concat (map got [0..<length chunks])))
         = filter (\<lambda>x. x \<noteq> None) (concat (map got [0..<length chunks]))
     \<and> promise oc =
         (if filter_not_null (concat (map got [0..<length chunks])) = []
          then Rejected (Error ''Couldn't retrieve objects'')
          else Resolved (case app of
                           Some a \<Rightarrow> ValidResult (filter_not_null (concat (map got [0..<length chunks])))
                         | None \<Rightarrow> Plain (filter_not_null (concat (map got [0..<length chunks])))))"
proof -
  let ?oc = "the (getObjects E chn object_ids app)"
  note eq = getObjects_connected[OF assms(1,2), of object_ids]
  have ch: "chunks_from object_ids 50 0 = chunks"
    using assms(3) by (simp add: sliceIntoChunks_eq)
  have m: "concat (map (\<lambda>(k, c). contribution E k c) (enumerate 0 chunks))
         = filter_not_null (concat (map got [0..<length chunks]))"
    using contribution_all_succeed[of chunks E 0 got] assms(4,5) by simp
  have e: "getObjects E chn object_ids app = Some ?oc" unfolding eq by simp
  have r: "promise ?oc =
         (if filter_not_null (concat (map got [0..<length chunks])) = []
          then Rejected (Error ''Couldn't retrieve objects'')
          else Resolved (case app of
                           Some a \<Rightarrow> ValidResult (filter_not_null (concat (map got [0..<length chunks])))
                         | None \<Rightarrow> Plain (filter_not_null (concat (map got [0..<length chunks])))))"
    unfolding eq ch m by simp
  show ?thesis
    by (intro exI[of _ ?oc] conjI) (rule e map_Some_filter_not_null r)+
qed

text \<open>
  Claim C10. Called without \<^verbatim>\<open>app\<close> for a chain with a configured, non-empty node
  list, \<^verbatim>\<open>getObjects\<close> connects to the first node of that list and to no other,
  never calls \<^verbatim>\<open>changeURL\<close> and leaves no store behind; when the connection fails
  it rejects with the connection error after \<^verbatim>\<open>Apis.close()\<close> and does nothing
  else. Called with \<^verbatim>\<open>app\<close>, a failed connection is followed by
  \<^verbatim>\<open>changeURL(chain, app)\<close>.
\<close>

theorem getObjects_without_app:
  assumes "chains E chn = Some (n # ns)"
  shows "\<exists>oc rest. getObjects E chn object_ids None = Some oc
      \<and> trace oc = ApisInstance (url n) (Some 10000) # rest
      \<and> (\<forall>ev \<in> set rest. \<forall>u t. ev \<noteq> ApisInstance u t)
      \<and> (\<forall>c. ChangeURL c \<notin> set (trace oc))
      \<and> store oc = None
      \<and> (\<forall>err. init_promise E (url n) = Some err
            \<longrightarrow> promise oc = Rejected err \<and> rest = [ApisClose])
      \<and> (\<forall>a err. init_promise E (getCurrentNode E chn a) = Some err
            \<longrightarrow> getObjects E chn object_ids (Some a)
                = Some \<lparr>promise = Rejected err,
                        trace = [ApisInstance (getCurrentNode E chn a) (Some 10000), ApisClose,
                                 ChangeURL chn],
                        store = Some (changeURL E chn a)\<rparr>)"
proof -
  have nd: "getObjects_node E chn None = Some (url n)"
    using assms by (rule getObjects_node_None)
  have withapp: "\<forall>a err. init_promise E (getCurrentNode E chn a) = Some err
            \<longrightarrow> getObjects E chn object_ids (Some a)
                = Some \<lparr>promise = Rejected err,
                        trace = [ApisInstance (getCurrentNode E chn a) (Some 10000), ApisClose,
                                 ChangeURL chn],
                        store = Some (changeURL E chn a)\<rparr>"
  proof (intro allI impI)
    fix a err assume f: "init_promise E (getCurrentNode E chn a) = Some err"
    show "getObjects E chn object_ids (Some a)
                = Some \<lparr>promise = Rejected err,
                        trace = [ApisInstance (getCurrentNode E chn a) (Some 10000), ApisClose,
                                 ChangeURL chn],
                        store = Some (changeURL E chn a)\<rparr>"
      using getObjects_connect_failed[OF getObjects_node_Some f, of object_ids] by simp
  qed
  let ?oc = "the (getObjects E chn object_ids None)"
  show ?thesis
  proof (cases "init_promise E (url n)")
    case None
    note eq = getObjects_connected[OF nd None, of object_ids]
    let ?rest = "chunk_calls E (chunks_from object_ids 50 0) @ [ApisClose]"
    have e: "getObjects E chn object_ids None = Some ?oc" unfolding eq by simp
    have t: "trace ?oc = ApisInstance (url n) (Some 10000) # ?rest" unfolding eq by simp
    have i: "\<forall>ev \<in> set ?rest. \<forall>u t. ev \<noteq> ApisInstance u t"
      by (auto simp: chunk_calls_def)
    have c: "\<forall>c. ChangeURL c \<notin> set (trace ?oc)" unfolding eq by (auto simp: chunk_calls_def)
    have s: "store ?oc = None" unfolding eq by simp
    have f: "\<forall>err. init_promise E (url n) = Some err
            \<longrightarrow> promise ?oc = Rejected err \<and> ?rest = [ApisClose]"
      using None by simp
    show ?thesis
      by (intro exI[of _ ?oc] exI[of _ ?rest] conjI) (rule e t i c s f withapp)+
  next
    case (Some err0)
    note eq = getObjects_connect_failed[OF nd Some, of object_ids]
    let ?rest = "[ApisClose] :: 'c event list"
    have e: "getObjects E chn object_ids None = Some ?oc" unfolding eq by simp
    have t: "trace ?oc = ApisInstance (url n) (Some 10000) # ?rest" unfolding eq by simp
    have i: "\<forall>ev \<in> set ?rest. \<forall>u t. ev \<noteq> ApisInstance u t" by auto
    have c: "\<forall>c. ChangeURL c \<notin> set (trace ?oc)" unfolding eq by auto
    have s: "store ?oc = None" unfolding eq by simp
    have f: "\<forall>err. init_promise E (url n) = Some err
            \<longrightarrow> promise ?oc = Rejected err \<and> ?rest = [ApisClose]"
      unfolding eq using Some by simp
    show ?thesis
      by (intro exI[of _ ?oc] exI[of _ ?rest] conjI) (rule e t i c s f withapp)+
  qed
qed

section \<open>The batch object fetch on concrete scenarios\<close>

lemma filter_not_null_map_Some: "filter_not_null (map Some xs) = xs"
  unfolding filter_not_null_def by (induction xs) simp_all

lemma chunks_from_120_eq:
  assumes "length arr = 120"
  shows "chunks_from arr 50 0 = [take 50 arr, take 50 (drop 50 arr), take 50 (drop 100 arr)]"
proof -
  have "[0..<(3::nat)] = [0, 1, 2]" by (simp add: upt_rec)
  then show ?thesis unfolding chunks_from_def using assms by simp
qed

lemma length_ids120: "length ids120 = 120"
  by (simp add: ids120_def)

lemma demo_node: "getObjects_node (demo_env ex ini) ''bitshares'' None = Some ''wss://node.xbts.io/ws''"
  by (simp add: getObjects_node_def demo_env_def)

lemma demo_db_api: "db_api (demo_env ex ini)"
  by (simp add: demo_env_def)

theorem getObjects_chunked_calls_witness:
  "getObjects_node (demo_env echo_exec connected) ''bitshares'' None = Some ''wss://node.xbts.io/ws''
   \<and> init_promise (demo_env echo_exec connected) ''wss://node.xbts.io/ws'' = None
   \<and> db_api (demo_env echo_exec connected)
   \<and> length ids120 = 120
   \<and> (\<exists>oc chunks.
         (getObjects (demo_env echo_exec connected) ''bitshares'' ids120 None
            :: (string list reply, unit, string list option) outcome option) = Some oc
       \<and> sliceIntoChunks ids120 50 = Some chunks
       \<and> concat chunks = ids120
       \<and> map length chunks = [50, 50, 20]
       \<and> rpcs (trace oc) = map (\<lambda>c. Get_objects c False) chunks
       \<and> promise oc = Resolved (Plain ids120))"
proof -
  let ?E = "demo_env echo_exec connected"
  have h1: "getObjects_node ?E ''bitshares'' None = Some ''wss://node.xbts.io/ws''"
    by (rule demo_node)
  have h2: "init_promise ?E ''wss://node.xbts.io/ws'' = None"
    by (simp add: demo_env_def connected_def)
  have h4: "\<forall>i c. exec ?E i (Get_objects c False) = Inr (Some (map Some c))"
    by (simp add: demo_env_def echo_exec_def)
  have ne: "ids120 \<noteq> []" using length_ids120 by auto
  from getObjects_chunked_calls[OF h1 h2 demo_db_api, of ids120 Some]
  obtain oc :: "(string list reply, unit, string list option) outcome" and chunks where
    a: "getObjects ?E ''bitshares'' ids120 None = Some oc"
       "sliceIntoChunks ids120 50 = Some chunks"
       "concat chunks = ids120"
    and t: "trace oc = ApisInstance ''wss://node.xbts.io/ws'' (Some 10000)
                  # map (\<lambda>c. DbExec (Get_objects c False)) chunks @ [ApisClose]"
    and l: "length ids120 = 120 \<longrightarrow> map length chunks = [50, 50, 20]"
    and p: "(\<forall>i c. exec ?E i (Get_objects c False) = Inr (Some (map Some c))) \<longrightarrow>
          promise oc =
            (if filter_not_null (map Some ids120) = []
             then Rejected (Error ''Couldn't retrieve objects'')
             else Resolved (case None :: string list option of
                              Some a \<Rightarrow> ValidResult (filter_not_null (map Some ids120))
                            | None \<Rightarrow> Plain (filter_not_null (map Some ids120))))"
    by (elim exE conjE) (rule that; assumption)
  have l': "map length chunks = [50, 50, 20]" using l length_ids120 by (rule mp)
  have p': "promise oc = Resolved (Plain ids120)"
    using p h4 ne by (simp add: filter_not_null_map_Some)
  have r: "rpcs (trace oc) = map (\<lambda>c. Get_objects c False) chunks"
    unfolding t by (simp add: rpcs_map_DbExec)
  show ?thesis
    by (intro conjI exI[of _ oc] exI[of _ chunks]) (rule h1 h2 demo_db_api length_ids120 a l' r p')+
qed

theorem getObjects_partial_failure_witness:
  "getObjects_node (demo_env flaky_exec connected) ''bitshares'' None = Some ''wss://node.xbts.io/ws''
   \<and> init_promise (demo_env flaky_exec connected) ''wss://node.xbts.io/ws'' = None
   \<and> (\<exists>oc.
         (getObjects (demo_env flaky_exec connected) ''bitshares'' ids120 None
            :: (string list reply, unit, string list option) outcome option) = Some oc
       \<and> rpcs (trace oc) = [Get_objects (take 50 ids120) False,
                             Get_objects (take 50 (drop 50 ids120)) False,
                             Get_objects (take 50 (drop 100 ids120)) False]
       \<and> promise oc = Resolved (Plain (take 50 ids120 @ take 50 (drop 100 ids120))))"
proof -
  let ?E = "demo_env flaky_exec connected"
  let ?cs = "[take 50 ids120, take 50 (drop 50 ids120), take 50 (drop 100 ids120)]"
  have h1: "getObjects_node ?E ''bitshares'' None = Some ''wss://node.xbts.io/ws''"
    by (rule demo_node)
  have h2: "init_promise ?E ''wss://node.xbts.io/ws'' = None"
    by (simp add: demo_env_def connected_def)
  from getObjects_partial_failure[OF h1 h2, of ids120]
  obtain oc :: "(string list reply, unit, string list option) outcome" and chunks where
    a: "getObjects ?E ''bitshares'' ids120 None = Some oc"
    and s: "sliceIntoChunks ids120 50 = Some chunks"
    and t: "rpcs (trace oc) = (if db_api ?E then map (\<lambda>c. Get_objects c False) chunks else [])"
    and p: "concat (map (\<lambda>(k, c). contribution ?E k c) (enumerate 0 chunks)) \<noteq> []
          \<longrightarrow> promise oc =
               Resolved (case None :: string list option of
                           Some a \<Rightarrow> ValidResult (concat (map (\<lambda>(k, c). contribution ?E k c)
                                                       (enumerate 0 chunks)))
                         | None \<Rightarrow> Plain (concat (map (\<lambda>(k, c). contribution ?E k c)
                                                (enumerate 0 chunks))))"
    by (elim exE conjE) (rule that; assumption)
  have ch: "chunks = ?cs"
    using s by (simp add: sliceIntoChunks_eq chunks_from_120_eq[OF length_ids120])
  have c0: "contribution ?E 0 (take 50 ids120) = take 50 ids120"
    by (simp add: contribution_def demo_env_def flaky_exec_def echo_exec_def
          filter_not_null_map_Some)
  have c1: "contribution ?E (Suc 0) (take 50 (drop 50 ids120)) = []"
    by (simp add: contribution_def demo_env_def flaky_exec_def)
  have c2: "contribution ?E (Suc (Suc 0)) (take 50 (drop 100 ids120)) = take 50 (drop 100 ids120)"
    by (simp add: contribution_def demo_env_def flaky_exec_def echo_exec_def
          filter_not_null_map_Some)
  have m: "concat (map (\<lambda>(k, c). contribution ?E k c) (enumerate 0 ?cs))
           = take 50 ids120 @ take 50 (drop 100 ids120)"
    by (simp add: c0 c1 c2)
  have ne: "take 50 ids120 @ take 50 (drop 100 ids120) \<noteq> []"
    using length_ids120 by auto
  have p': "promise oc = Resolved (Plain (take 50 ids120 @ take 50 (drop 100 ids120)))"
    using p ne unfolding ch m by simp
  have t': "rpcs (trace oc) = map (\<lambda>c. Get_objects c False) ?cs"
    using t demo_db_api[of flaky_exec connected] unfolding ch by simp
  show ?thesis
    using t' by (intro conjI exI[of _ oc]) (simp_all add: h1 h2 a p')
qed

theorem getObjects_filters_null_witness:
  "getObjects_node (demo_env missing_exec connected) ''bitshares'' None = Some ''wss://node.xbts.io/ws''
   \<and> init_promise (demo_env missing_exec connected) ''wss://node.xbts.io/ws'' = None
   \<and> db_api (demo_env missing_exec connected)
   \<and> sliceIntoChunks [''1.2.1'', ''1.2.2'', ''missing''] 50 = Some [[''1.2.1'', ''1.2.2'', ''missing'']]
   \<and> exec (demo_env missing_exec connected) 0 (Get_objects [''1.2.1'', ''1.2.2'', ''missing''] False)
       = Inr (Some [Some ''obj 1.2.1'', Some ''obj 1.2.2'', None])
   \<and> (\<exists>oc.
         (getObjects (demo_env missing_exec connected) ''bitshares'' [''1.2.1'', ''1.2.2'', ''missing''] None
            :: (string list reply, unit, string list option) outcome option) = Some oc
       \<and> promise oc = Resolved (Plain [''obj 1.2.1'', ''obj 1.2.2'']))"
proof -
  let ?E = "demo_env missing_exec connected"
  let ?ids = "[''1.2.1'', ''1.2.2'', ''missing'']"
  let ?got = "\<lambda>k::nat. [Some ''obj 1.2.1'', Some ''obj 1.2.2'', None]"
  have h1: "getObjects_node ?E ''bitshares'' None = Some ''wss://node.xbts.io/ws''"
    by (rule demo_node)
  have h2: "init_promise ?E ''wss://node.xbts.io/ws'' = None"
    by (simp add: demo_env_def connected_def)
  have h3: "sliceIntoChunks ?ids 50 = Some [?ids]"
    by (simp add: sliceIntoChunks_def sliceIntoChunks_loop.simps)
  have h4': "exec ?E 0 (Get_objects ?ids False) = Inr (Some (?got 0))"
    by (simp add: demo_env_def missing_exec_def)
  have h4: "\<forall>k<length [?ids]. exec ?E k (Get_objects ([?ids] ! k) False) = Inr (Some (?got k))"
    using h4' by simp
  from getObjects_filters_null[OF h1 h2 h3 h4 demo_db_api]
  obtain oc :: "(string list reply, unit, string list option) outcome" where
    a: "getObjects ?E ''bitshares'' ?ids None = Some oc"
    and p: "promise oc =
         (if filter_not_null (concat (map ?got [0..<length [?ids]])) = []
          then Rejected (Error ''Couldn't retrieve objects'')
          else Resolved (case None :: string list option of
                           Some a \<Rightarrow> ValidResult (filter_not_null (concat (map ?got [0..<length [?ids]])))
                         | None \<Rightarrow> Plain (filter_not_null (concat (map ?got [0..<length [?ids]])))))"
    by (elim exE conjE) (rule that; assumption)
  have p': "promise oc = Resolved (Plain [''obj 1.2.1'', ''obj 1.2.2''])"
    unfolding p by (simp add: filter_not_null_def)
  show ?thesis
    by (intro conjI exI[of _ oc]) (rule h1 h2 demo_db_api h3 h4' a p')+
qed

theorem getObjects_without_app_witness:
  "chains (demo_env echo_exec refused) ''bitshares''
     = Some (\<lparr>url = ''wss://node.xbts.io/ws''\<rparr> # [\<lparr>url = ''wss://api.bts.mobi/ws''\<rparr>])
   \<and> (\<exists>oc.
         (getObjects (demo_env echo_exec refused) ''bitshares'' [''1.2.1''] None
            :: (string list reply, unit, string list option) outcome option) = Some oc
       \<and> promise oc = Rejected (Error ''connection refused'')
       \<and> trace oc = [ApisInstance ''wss://node.xbts.io/ws'' (Some 10000), ApisClose]
       \<and> store oc = None)
   \<and> (getObjects (demo_env echo_exec refused) ''bitshares'' [''1.2.1'']
         (Some [''wss://node.xbts.io/ws'', ''wss://api.bts.mobi/ws''])
         :: (string list reply, unit, string list option) outcome option)
       = Some \<lparr>promise = Rejected (Error ''connection refused''),
               trace = [ApisInstance ''wss://node.xbts.io/ws'' (Some 10000), ApisClose,
                        ChangeURL ''bitshares''],
               store = Some [''wss://api.bts.mobi/ws'', ''wss://node.xbts.io/ws'']\<rparr>"
proof -
  let ?E = "demo_env echo_exec refused"
  let ?a = "[''wss://node.xbts.io/ws'', ''wss://api.bts.mobi/ws'']"
  have h: "chains ?E ''bitshares''
     = Some (\<lparr>url = ''wss://node.xbts.io/ws''\<rparr> # [\<lparr>url = ''wss://api.bts.mobi/ws''\<rparr>])"
    by (simp add: demo_env_def)
  have f: "init_promise ?E u = Some (Error ''connection refused'')" for u
    by (simp add: demo_env_def refused_def)
  have g: "getCurrentNode ?E ''bitshares'' ?a = ''wss://node.xbts.io/ws''"
    by (simp add: demo_env_def)
  have r: "changeURL ?E ''bitshares'' ?a = [''wss://api.bts.mobi/ws'', ''wss://node.xbts.io/ws'']"
    by (simp add: demo_env_def)
  from getObjects_without_app[OF h, of "[''1.2.1'']"]
  obtain oc :: "(string list reply, unit, string list option) outcome" and rest where
    a: "getObjects ?E ''bitshares'' [''1.2.1''] None = Some oc"
    and t: "trace oc = ApisInstance (url \<lparr>url = ''wss://node.xbts.io/ws''\<rparr>) (Some 10000) # rest"
    and s: "store oc = None"
    and e: "\<forall>err. init_promise ?E (url \<lparr>url = ''wss://node.xbts.io/ws''\<rparr>) = Some err
            \<longrightarrow> promise oc = Rejected err \<and> rest = [ApisClose]"
    and w: "\<forall>a err. init_promise ?E (getCurrentNode ?E ''bitshares'' a) = Some err
            \<longrightarrow> (getObjects ?E ''bitshares'' [''1.2.1''] (Some a)
                    :: (string list reply, unit, string list option) outcome option)
                = Some \<lparr>promise = Rejected err,
                        trace = [ApisInstance (getCurrentNode ?E ''bitshares'' a) (Some 10000),
                                 ApisClose, ChangeURL ''bitshares''],
                        store = Some (changeURL ?E ''bitshares'' a)\<rparr>"
    by (elim exE conjE) (rule that; assumption)
  have e': "promise oc = Rejected (Error ''connection refused'') \<and> rest = [ApisClose]"
    using e f by blast
  have t': "trace oc = [ApisInstance ''wss://node.xbts.io/ws'' (Some 10000), ApisClose]"
    using t e' by simp
  have w': "(getObjects ?E ''bitshares'' [''1.2.1''] (Some ?a)
              :: (string list reply, unit, string list option) outcome option)
       = Some \<lparr>promise = Rejected (Error ''connection refused''),
               trace = [ApisInstance ''wss://node.xbts.io/ws'' (Some 10000), ApisClose,
                        ChangeURL ''bitshares''],
               store = Some [''wss://api.bts.mobi/ws'', ''wss://node.xbts.io/ws'']\<rparr>"
    using w[rule_format, of ?a "Error ''connection refused''"] f unfolding g r by simp
  show ?thesis
    using e' by (intro conjI exI[of _ oc]) (simp_all add: h a t' s w')
qed


section \<open>The transaction build\<close>

lemma tr_calls_map_Tr: "tr_calls (map Tr cs @ t) = cs @ tr_calls t"
  by (induction cs) simp_all

lemma tr_calls_map_Tr_only: "tr_calls (map Tr cs) = cs"
  by (induction cs) simp_all

lemma run_steps_adds:
  "run_steps B tr (map (Add_type_operation opt) ops @ rest) =
     (case add_type_operations B opt ops tr of
        (Some e, t) \<Rightarrow> (Some e, t)
      | (None, t) \<Rightarrow> run_steps B t rest)"
  by (induction ops arbitrary: tr) (simp_all split: option.splits)

lemma add_type_operations_length:
  "add_type_operations B opt ops tr = (r, out) \<Longrightarrow>
     (r = None \<longrightarrow> length out = length tr + length ops)
     \<and> (r \<noteq> None \<longrightarrow> length out \<le> length tr + length ops)"
proof (induction ops arbitrary: tr)
  case Nil
  then show ?case by simp
next
  case (Cons a ops)
  show ?case
  proof (cases "tr_throws B tr (Add_type_operation opt a)")
    case (Some e)
    then show ?thesis using Cons.prems by auto
  next
    case None
    then have "add_type_operations B opt ops (tr @ [Add_type_operation opt a]) = (r, out)"
      using Cons.prems by simp
    from Cons.IH[OF this] show ?thesis by simp
  qed
qed

lemma run_steps_spec:
  "run_steps B tr cs = (r, out) \<Longrightarrow>
     \<exists>k. length tr \<le> k \<and> k \<le> length (tr @ cs) \<and> out = take k (tr @ cs)
       \<and> (\<forall>j. length tr \<le> j \<longrightarrow> Suc j < k
             \<longrightarrow> tr_throws B (take j (tr @ cs)) ((tr @ cs) ! j) = None)
       \<and> (r = None \<longrightarrow> k = length (tr @ cs)
             \<and> (\<forall>j. length tr \<le> j \<longrightarrow> j < k
                   \<longrightarrow> tr_throws B (take j (tr @ cs)) ((tr @ cs) ! j) = None))
       \<and> (\<forall>e. r = Some e \<longrightarrow> length tr < k
             \<and> tr_throws B (take (k - 1) (tr @ cs)) ((tr @ cs) ! (k - 1)) = Some e)"
proof (induction cs arbitrary: tr)
  case Nil
  then show ?case by (intro exI[of _ "length tr"]) auto
next
  case (Cons c cs)
  show ?case
  proof (cases "tr_throws B tr c")
    case (Some e)
    then have "r = Some e" "out = tr @ [c]" using Cons.prems by simp_all
    then show ?thesis using Some
      by (intro exI[of _ "Suc (length tr)"]) (auto simp: nth_append)
  next
    case None
    then have "run_steps B (tr @ [c]) cs = (r, out)" using Cons.prems by simp
    from Cons.IH[OF this] obtain k where k:
      "length (tr @ [c]) \<le> k" "k \<le> length ((tr @ [c]) @ cs)" "out = take k ((tr @ [c]) @ cs)"
      "\<forall>j. length (tr @ [c]) \<le> j \<longrightarrow> Suc j < k
             \<longrightarrow> tr_throws B (take j ((tr @ [c]) @ cs)) (((tr @ [c]) @ cs) ! j) = None"
      "r = None \<longrightarrow> k = length ((tr @ [c]) @ cs)
             \<and> (\<forall>j. length (tr @ [c]) \<le> j \<longrightarrow> j < k
                   \<longrightarrow> tr_throws B (take j ((tr @ [c]) @ cs)) (((tr @ [c]) @ cs) ! j) = None)"
      "\<forall>e. r = Some e \<longrightarrow> length (tr @ [c]) < k
             \<and> tr_throws B (take (k - 1) ((tr @ [c]) @ cs)) (((tr @ [c]) @ cs) ! (k - 1)) = Some e"
      by (elim exE conjE) (rule that; assumption)
    have eq: "(tr @ [c]) @ cs = tr @ c # cs" by simp
    have here: "tr_throws B (take (length tr) (tr @ c # cs)) ((tr @ c # cs) ! length tr) = None"
      using None by simp
    have step: "tr_throws B (take j (tr @ c # cs)) ((tr @ c # cs) ! j) = None"
      if "length tr \<le> j" "j = length tr \<or> tr_throws B (take j (tr @ c # cs)) ((tr @ c # cs) ! j) = None"
      for j using that here by auto
    show ?thesis
    proof (intro exI[of _ k] conjI)
      show "length tr \<le> k" using k(1) by simp
      show "k \<le> length (tr @ c # cs)" using k(2) by simp
      show "out = take k (tr @ c # cs)" using k(3) by simp
      show "\<forall>j. length tr \<le> j \<longrightarrow> Suc j < k
             \<longrightarrow> tr_throws B (take j (tr @ c # cs)) ((tr @ c # cs) ! j) = None"
      proof (intro allI impI)
        fix j assume a: "length tr \<le> j" "Suc j < k"
        show "tr_throws B (take j (tr @ c # cs)) ((tr @ c # cs) ! j) = None"
        proof (cases "j = length tr")
          case True then show ?thesis using here by simp
        next
          case False
          then have "length (tr @ [c]) \<le> j" using a(1) by simp
          then show ?thesis using k(4) a(2) unfolding eq by blast
        qed
      qed
      show "r = None \<longrightarrow> k = length (tr @ c # cs)
             \<and> (\<forall>j. length tr \<le> j \<longrightarrow> j < k
                   \<longrightarrow> tr_throws B (take j (tr @ c # cs)) ((tr @ c # cs) ! j) = None)"
      proof (intro impI conjI allI)
        assume rn: "r = None"
        show "k = length (tr @ c # cs)" using k(5) rn unfolding eq by blast
        fix j assume a: "length tr \<le> j" "j < k"
        show "tr_throws B (take j (tr @ c # cs)) ((tr @ c # cs) ! j) = None"
        proof (cases "j = length tr")
          case True then show ?thesis using here by simp
        next
          case False
          then have "length (tr @ [c]) \<le> j" using a(1) by simp
          then show ?thesis using k(5) rn a(2) unfolding eq by blast
        qed
      qed
      show "\<forall>e. r = Some e \<longrightarrow> length tr < k
             \<and> tr_throws B (take (k - 1) (tr @ c # cs)) ((tr @ c # cs) ! (k - 1)) = Some e"
      proof (intro allI impI conjI)
        fix e assume re: "r = Some e"
        show "length tr < k" using k(1) by simp
        show "tr_throws B (take (k - 1) (tr @ c # cs)) ((tr @ c # cs) ! (k - 1)) = Some e"
          using k(6) re unfolding eq by blast
      qed
    qed
  qed
qed

lemma generateDeepLink_run:
  assumes "init_promise E (getCurrentNode E chn app) = None"
  shows "generateDeepLink E B chn opt ops app =
     (case run_steps B [] (build_steps opt ops) of
        (None, out) \<Rightarrow>
          \<lparr>promise = settled_by B chn out,
           trace = ApisInstance (getCurrentNode E chn app) (Some 10000) # map Tr out
                   @ (if settled_by B chn out = Pending then [] else [ApisClose]),
           store = app\<rparr>
      | (Some e, out) \<Rightarrow>
          if length out \<le> length ops
          then \<lparr>promise = Pending,
                trace = ApisInstance (getCurrentNode E chn app) (Some 10000) # map Tr out,
                store = app\<rparr>
          else \<lparr>promise = Rejected e,
                trace = ApisInstance (getCurrentNode E chn app) (Some 10000) # map Tr out
                        @ [ApisClose],
                store = app\<rparr>)"
proof -
  obtain r out0 where a: "add_type_operations B opt ops [] = (r, out0)"
    by (cases "add_type_operations B opt ops []") blast
  note len = add_type_operations_length[OF a]
  show ?thesis
  proof (cases r)
    case (Some e)
    then have "length out0 \<le> length ops" using len by simp
    then show ?thesis
      unfolding generateDeepLink_def build_steps_def run_steps_adds
      using assms a Some by (simp add: Let_def)
  next
    case None
    then have l: "length out0 = length ops" using len by simp
    show ?thesis
      unfolding generateDeepLink_def build_steps_def run_steps_adds
      using assms a None l
      by (simp add: Let_def settled_by_def split: option.splits sum.splits)
  qed
qed

lemma closes_trace: "closes (ApisInstance nd t # map Tr out @ [ApisClose]) = 1"
  unfolding closes_def by (induction out) simp_all

lemma closes_no_close: "closes (ApisInstance nd t # map Tr out) = 0"
  unfolding closes_def by (induction out) simp_all

text \<open>
  What holds of the steps whose failure the code sees (\<open>tr_throws\<close>). The calls made on
  the builder are an initial part of the fixed sequence \<open>build_steps\<close>; a step is made
  only when no step before it threw; a step that throws is the last one made, and then the
  promise is not resolved; the promise is resolved only after all steps were made and none
  threw; and when the connection opens and no step throws, all steps are made and the promise
  is settled by \<open>settled_by\<close>.
\<close>

lemma generateDeepLink_steps_in_order:
  assumes oc: "oc = generateDeepLink E B chn opt ops app"
    and steps: "steps = build_steps opt ops"
  shows "(\<exists>k\<le>length steps. tr_calls (trace oc) = take k steps)
     \<and> (\<forall>j. Suc j < length (tr_calls (trace oc))
           \<longrightarrow> tr_throws B (take j steps) (steps ! j) = None)
     \<and> (\<forall>j e. j < length (tr_calls (trace oc))
           \<longrightarrow> tr_throws B (take j steps) (steps ! j) = Some e
           \<longrightarrow> length (tr_calls (trace oc)) = Suc j \<and> (\<forall>x. promise oc \<noteq> Resolved x))
     \<and> (\<forall>x. promise oc = Resolved x
           \<longrightarrow> tr_calls (trace oc) = steps
               \<and> (\<forall>j<length steps. tr_throws B (take j steps) (steps ! j) = None)
               \<and> settled_by B chn steps = Resolved x)
     \<and> (init_promise E (getCurrentNode E chn app) = None
           \<longrightarrow> (\<forall>j<length steps. tr_throws B (take j steps) (steps ! j) = None)
           \<longrightarrow> tr_calls (trace oc) = steps
               \<and> promise oc = settled_by B chn steps
               \<and> closes (trace oc) = (if settled_by B chn steps = Pending then 0 else 1))"
proof (cases "init_promise E (getCurrentNode E chn app)")
  case (Some err)
  have t: "tr_calls (trace oc) = []" and p: "promise oc = Rejected err"
    unfolding oc generateDeepLink_def using Some by (simp_all add: Let_def)
  have "\<exists>k\<le>length steps. tr_calls (trace oc) = take k steps"
    by (intro exI[of _ 0]) (simp add: t)
  then show ?thesis using Some by (simp add: t p)
next
  case None
  obtain r out where ro: "run_steps B [] steps = (r, out)"
    by (cases "run_steps B [] steps") blast
  from run_steps_spec[OF ro] obtain k where k:
    "k \<le> length steps" "out = take k steps"
    "\<forall>j. Suc j < k \<longrightarrow> tr_throws B (take j steps) (steps ! j) = None"
    "r = None \<longrightarrow> k = length steps
        \<and> (\<forall>j. j < k \<longrightarrow> tr_throws B (take j steps) (steps ! j) = None)"
    "\<forall>e. r = Some e \<longrightarrow> 0 < k \<and> tr_throws B (take (k - 1) steps) (steps ! (k - 1)) = Some e"
    by auto
  have lk: "length out = k" using k(1,2) by simp
  note run = generateDeepLink_run[OF None, of B opt ops, folded oc steps, unfolded ro prod.case]
  have t: "tr_calls (trace oc) = out"
    unfolding run by (cases r) (simp_all add: tr_calls_map_Tr tr_calls_map_Tr_only)
  have notres: "\<forall>x. promise oc \<noteq> Resolved x" if "r \<noteq> None"
    using that unfolding run by (cases r) auto
  have res: "promise oc = settled_by B chn out
             \<and> closes (trace oc) = (if settled_by B chn out = Pending then 0 else 1)"
    if "r = None"
    using that unfolding run by (simp add: closes_trace closes_no_close)
  have p1: "\<exists>k\<le>length steps. tr_calls (trace oc) = take k steps"
    using k(1,2) t by blast
  have p2: "\<forall>j. Suc j < length (tr_calls (trace oc))
           \<longrightarrow> tr_throws B (take j steps) (steps ! j) = None"
    using k(3) unfolding t lk .
  have p3: "\<forall>j e. j < length (tr_calls (trace oc))
           \<longrightarrow> tr_throws B (take j steps) (steps ! j) = Some e
           \<longrightarrow> length (tr_calls (trace oc)) = Suc j \<and> (\<forall>x. promise oc \<noteq> Resolved x)"
  proof (intro allI impI)
    fix j e assume a: "j < length (tr_calls (trace oc))"
      and b: "tr_throws B (take j steps) (steps ! j) = Some e"
    have jk: "j < k" using a unfolding t lk .
    have "\<not> Suc j < k" using k(3) b by auto
    then have sk: "k = Suc j" using jk by simp
    have "r \<noteq> None" using k(4) jk b by auto
    then show "length (tr_calls (trace oc)) = Suc j \<and> (\<forall>x. promise oc \<noteq> Resolved x)"
      using notres sk unfolding t lk by blast
  qed
  have p4: "\<forall>x. promise oc = Resolved x
           \<longrightarrow> tr_calls (trace oc) = steps
               \<and> (\<forall>j<length steps. tr_throws B (take j steps) (steps ! j) = None)
               \<and> settled_by B chn steps = Resolved x"
  proof (intro allI impI)
    fix x assume px: "promise oc = Resolved x"
    have rn: "r = None" using notres px by blast
    then have ks: "k = length steps"
      and ok: "\<forall>j. j < k \<longrightarrow> tr_throws B (take j steps) (steps ! j) = None"
      using k(4) by blast+
    have os: "out = steps" using k(2) ks by simp
    have "settled_by B chn steps = Resolved x"
      using res[OF rn] px unfolding os by simp
    then show "tr_calls (trace oc) = steps
               \<and> (\<forall>j<length steps. tr_throws B (take j steps) (steps ! j) = None)
               \<and> settled_by B chn steps = Resolved x"
      using ok os unfolding t ks by blast
  qed
  have p5: "init_promise E (getCurrentNode E chn app) = None
           \<longrightarrow> (\<forall>j<length steps. tr_throws B (take j steps) (steps ! j) = None)
           \<longrightarrow> tr_calls (trace oc) = steps
               \<and> promise oc = settled_by B chn steps
               \<and> closes (trace oc) = (if settled_by B chn steps = Pending then 0 else 1)"
  proof (intro impI)
    assume ok: "\<forall>j<length steps. tr_throws B (take j steps) (steps ! j) = None"
    have rn: "r = None"
    proof (cases r)
      case None then show ?thesis .
    next
      case (Some e)
      then have "0 < k" "tr_throws B (take (k - 1) steps) (steps ! (k - 1)) = Some e"
        using k(5) by blast+
      moreover have "k - 1 < length steps" using \<open>0 < k\<close> k(1) by simp
      ultimately show ?thesis using ok by auto
    qed
    then have ks: "k = length steps" using k(4) by blast
    have os: "out = steps" using k(2) ks by simp
    show "tr_calls (trace oc) = steps
               \<and> promise oc = settled_by B chn steps
               \<and> closes (trace oc) = (if settled_by B chn steps = Pending then 0 else 1)"
      using res[OF rn] t unfolding os by simp
  qed
  from p1 p2 p3 p4 p5 show ?thesis by (intro conjI)
qed

lemma generateDeepLink_closes:
  assumes "init_promise E (getCurrentNode E chn app) = None"
  shows "closes (trace (generateDeepLink E B chn opt ops app))
         = (if promise (generateDeepLink E B chn opt ops app) = Pending then 0 else 1)"
proof -
  obtain r out where ro: "run_steps B [] (build_steps opt ops) = (r, out)"
    by (cases "run_steps B [] (build_steps opt ops)") blast
  show ?thesis
    unfolding generateDeepLink_run[OF assms] ro prod.case
    by (cases r) (simp_all add: closes_trace closes_no_close)
qed

text \<open>
  Claim C1, evaluated where the code departs from it. On a builder whose calls do not throw
  but whose \<^verbatim>\<open>finalize\<close> fails through the promise it returns,
  \<^verbatim>\<open>generateDeepLink\<close> makes every step, closes the connection and resolves with an
  envelope: the failure of the last step aborts nothing. On a builder whose
  \<^verbatim>\<open>set_required_fees\<close> fails, which is awaited, the later steps are not made and
  the promise is rejected.
\<close>

theorem generateDeepLink_unawaited_finalize:
  "finalize_rejects (demo_builder never_throws finalize_rejected)
     [Add_type_operation ''transfer'' ''op1'', Add_type_operation ''transfer'' ''op2'',
      Update_head_block, Set_required_fees, Set_expire_seconds 7200]
     = Some (Error ''finalize failed'')
   \<and> generateDeepLink (demo_env empty_exec connected)
       (demo_builder never_throws finalize_rejected)
       ''bitshares'' ''transfer'' [''op1'', ''op2''] two_nodes
     = \<lparr>promise = Resolved ''%7B00000000-0000-4000-8000-000000000000%7D'',
        trace = [ApisInstance ''wss://node.xbts.io/ws'' (Some 10000),
                 Tr (Add_type_operation ''transfer'' ''op1''),
                 Tr (Add_type_operation ''transfer'' ''op2''),
                 Tr Update_head_block, Tr Set_required_fees, Tr (Set_expire_seconds 7200),
                 Tr Finalize, ApisClose],
        store = two_nodes\<rparr>
   \<and> generateDeepLink (demo_env empty_exec connected)
       (demo_builder fees_throw finalize_fulfilled)
       ''bitshares'' ''transfer'' [''op1'', ''op2''] two_nodes
     = \<lparr>promise = Rejected (Error ''insufficient fee pool''),
        trace = [ApisInstance ''wss://node.xbts.io/ws'' (Some 10000),
                 Tr (Add_type_operation ''transfer'' ''op1''),
                 Tr (Add_type_operation ''transfer'' ''op2''),
                 Tr Update_head_block, Tr Set_required_fees, ApisClose],
        store = two_nodes\<rparr>"
  by (simp add: generateDeepLink_def Let_def demo_env_def connected_def demo_builder_def
        never_throws_def fees_throw_def finalize_rejected_def two_nodes_def
        deeplink_request_def)

section \<open>The aggregate query, the account lookup and the account history\<close>

lemmas outcome_steps = emit_def reject_def resolve_def call_changeURL_def

text \<open>
  Claim C6. When the limit orders query or the balances query of \<^verbatim>\<open>getPortfolio\<close>
  throws, the promise is rejected, whatever the other query did. The promise is resolved only
  when both queries returned a result, and then with both results.
\<close>

theorem getPortfolio_all_or_nothing:
  "(isl (exec E 0 (Get_limit_orders_by_account acc 100))
      \<or> isl (exec E 1 (Get_account_balances acc []))
      \<longrightarrow> (\<exists>err. promise (getPortfolio E chn acc app) = Rejected err))
   \<and> (\<forall>v. promise (getPortfolio E chn acc app) = Resolved v
        \<longrightarrow> (\<exists>b l. exec E 0 (Get_limit_orders_by_account acc 100) = Inr (Some l)
                 \<and> exec E 1 (Get_account_balances acc []) = Inr (Some b)
                 \<and> v = ValidResult \<lparr>balances = b, limitOrders = l\<rparr>))"
  by (cases "init_promise E (getCurrentNode E chn app)";
      cases "exec E 0 (Get_limit_orders_by_account acc 100)";
      cases "exec E 1 (Get_account_balances acc [])")
     (auto simp: getPortfolio_def Let_def outcome_steps split: option.splits)

text \<open>
  Claim C7, as amended. Once the connection is open and the database API is there,
  \<^verbatim>\<open>getPortfolio\<close> makes exactly two remote calls, the limit orders query first and
  the balances query second, after the one connection it opens; when both return a result, it
  closes the connection after them and resolves with the two results in one object.
\<close>

theorem getPortfolio_call_order:
  assumes "init_promise E (getCurrentNode E chn app) = None" and "db_api E"
  shows "rpcs (trace (getPortfolio E chn acc app))
           = [Get_limit_orders_by_account acc 100, Get_account_balances acc []]
     \<and> (\<exists>rest. trace (getPortfolio E chn acc app)
                  = ApisInstance (getCurrentNode E chn app) (Some 4000) # rest
               \<and> (\<forall>ev \<in> set rest. \<forall>u t. ev \<noteq> ApisInstance u t))
     \<and> (\<forall>l b. exec E 0 (Get_limit_orders_by_account acc 100) = Inr (Some l)
            \<longrightarrow> exec E 1 (Get_account_balances acc []) = Inr (Some b)
            \<longrightarrow> getPortfolio E chn acc app
                  = \<lparr>promise = Resolved (ValidResult \<lparr>balances = b, limitOrders = l\<rparr>),
                     trace = [ApisInstance (getCurrentNode E chn app) (Some 4000),
                              DbExec (Get_limit_orders_by_account acc 100),
                              DbExec (Get_account_balances acc []),
                              ApisClose],
                     store = app\<rparr>)"
  using assms
  by (cases "exec E 0 (Get_limit_orders_by_account acc 100)";
      cases "exec E 1 (Get_account_balances acc [])")
     (auto simp: getPortfolio_def Let_def outcome_steps split: option.splits)

theorem getPortfolio_all_or_nothing_witness:
  "isl (exec (demo_env balances_fail_exec connected) 1 (Get_account_balances ''1.2.100'' []))
   \<and> exec (demo_env balances_fail_exec connected) 0 (Get_limit_orders_by_account ''1.2.100'' 100)
       = Inr (Some [Some ''1.7.1''])
   \<and> promise (getPortfolio (demo_env balances_fail_exec connected) ''bitshares'' ''1.2.100'' two_nodes
                :: (string portfolio reply, unit, string list) outcome)
       = Rejected (Error ''balances unavailable'')"
proof -
  let ?E = "demo_env balances_fail_exec connected"
  let ?oc = "getPortfolio ?E ''bitshares'' ''1.2.100'' two_nodes
               :: (string portfolio reply, unit, string list) outcome"
  have h: "isl (exec ?E 1 (Get_account_balances ''1.2.100'' []))"
    by (simp add: demo_env_def connected_def two_nodes_def balances_fail_exec_def portfolio_exec_def)
  have l: "exec ?E 0 (Get_limit_orders_by_account ''1.2.100'' 100) = Inr (Some [Some ''1.7.1''])"
    by (simp add: demo_env_def connected_def two_nodes_def balances_fail_exec_def portfolio_exec_def)
  from getPortfolio_all_or_nothing[of ?E "''1.2.100''" "''bitshares''" two_nodes] h
  have "\<exists>err. promise ?oc = Rejected err" by (elim conjE) (erule mp, rule disjI2)
  then obtain err where r: "promise ?oc = Rejected err" ..
  have "promise ?oc \<noteq> Pending \<longrightarrow> promise ?oc = Rejected (Error ''balances unavailable'')"
    by (simp add: getPortfolio_def Let_def outcome_steps demo_env_def connected_def two_nodes_def balances_fail_exec_def portfolio_exec_def)
  with r have "promise ?oc = Rejected (Error ''balances unavailable'')" by simp
  with h l show ?thesis by (intro conjI)
qed

theorem getPortfolio_call_order_witness:
  "init_promise (demo_env portfolio_exec connected)
     (getCurrentNode (demo_env portfolio_exec connected) ''bitshares'' two_nodes) = None
   \<and> db_api (demo_env portfolio_exec connected)
   \<and> rpcs (trace (getPortfolio (demo_env portfolio_exec connected) ''bitshares'' ''1.2.100'' two_nodes
                    :: (string portfolio reply, unit, string list) outcome))
       = [Get_limit_orders_by_account ''1.2.100'' 100, Get_account_balances ''1.2.100'' []]
   \<and> (getPortfolio (demo_env portfolio_exec connected) ''bitshares'' ''1.2.100'' two_nodes
        :: (string portfolio reply, unit, string list) outcome)
       = \<lparr>promise = Resolved (ValidResult \<lparr>balances = [Some ''1.3.0''], limitOrders = [Some ''1.7.1'']\<rparr>),
          trace = [ApisInstance ''wss://node.xbts.io/ws'' (Some 4000),
                   DbExec (Get_limit_orders_by_account ''1.2.100'' 100),
                   DbExec (Get_account_balances ''1.2.100'' []),
                   ApisClose],
          store = two_nodes\<rparr>"
proof -
  let ?E = "demo_env portfolio_exec connected"
  let ?oc = "getPortfolio ?E ''bitshares'' ''1.2.100'' two_nodes
               :: (string portfolio reply, unit, string list) outcome"
  have h1: "init_promise ?E (getCurrentNode ?E ''bitshares'' two_nodes) = None"
    by (simp add: demo_env_def connected_def two_nodes_def portfolio_exec_def)
  have h2: "db_api ?E" by (simp add: demo_env_def connected_def two_nodes_def portfolio_exec_def)
  have n: "getCurrentNode ?E ''bitshares'' two_nodes = ''wss://node.xbts.io/ws''"
    by (simp add: demo_env_def connected_def two_nodes_def portfolio_exec_def)
  have l: "exec ?E 0 (Get_limit_orders_by_account ''1.2.100'' 100) = Inr (Some [Some ''1.7.1''])"
    by (simp add: demo_env_def connected_def two_nodes_def portfolio_exec_def)
  have b: "exec ?E 1 (Get_account_balances ''1.2.100'' []) = Inr (Some [Some ''1.3.0''])"
    by (simp add: demo_env_def connected_def two_nodes_def portfolio_exec_def)
  note t = getPortfolio_call_order[OF h1 h2, of "''1.2.100''"]
  have r: "rpcs (trace ?oc)
       = [Get_limit_orders_by_account ''1.2.100'' 100, Get_account_balances ''1.2.100'' []]"
    using t by (elim conjE)
  have e: "?oc
       = \<lparr>promise = Resolved (ValidResult \<lparr>balances = [Some ''1.3.0''], limitOrders = [Some ''1.7.1'']\<rparr>),
          trace = [ApisInstance ''wss://node.xbts.io/ws'' (Some 4000),
                   DbExec (Get_limit_orders_by_account ''1.2.100'' 100),
                   DbExec (Get_account_balances ''1.2.100'' []),
                   ApisClose],
          store = two_nodes\<rparr>"
    using t l b unfolding n by (elim conjE) blast
  from h1 h2 r e show ?thesis by (intro conjI)
qed

text \<open>
  Claim C7 as stated has the balances query first. On a node that answers both queries the
  limit orders query is the first call and the balances query the second.
\<close>

theorem getPortfolio_balances_first_counterexample:
  "rpcs (trace (getPortfolio (demo_env portfolio_exec connected) ''bitshares'' ''1.2.100'' two_nodes
                  :: (string portfolio reply, unit, string list) outcome))
     = [Get_limit_orders_by_account ''1.2.100'' 100, Get_account_balances ''1.2.100'' []]
   \<and> rpcs (trace (getPortfolio (demo_env portfolio_exec connected) ''bitshares'' ''1.2.100'' two_nodes
                  :: (string portfolio reply, unit, string list) outcome))
     \<noteq> [Get_account_balances ''1.2.100'' [], Get_limit_orders_by_account ''1.2.100'' 100]"
  by (simp add: getPortfolio_def Let_def outcome_steps demo_env_def connected_def two_nodes_def portfolio_exec_def)

text \<open>
  Claim C2, evaluated where the code departs from it. When the node has no account for the
  search string, \<^verbatim>\<open>accountSearch\<close> rejects with
  \<^verbatim>\<open>Couldn't retrieve account\<close> after connecting and querying, and
  \<^verbatim>\<open>Apis.close()\<close> is never called. When the limit orders query of
  \<^verbatim>\<open>getPortfolio\<close> throws, \<^verbatim>\<open>Apis.close()\<close> is called twice.
\<close>

theorem accountSearch_not_found_never_closes:
  "(accountSearch (demo_env empty_exec connected) ''bitshares'' ''nobody'' two_nodes
      :: (string option reply, unit, string list) outcome)
     = \<lparr>promise = Rejected (Error ''Couldn't retrieve account''),
        trace = [ApisInstance ''wss://node.xbts.io/ws'' None, DbExec (Get_accounts [''nobody''])],
        store = two_nodes\<rparr>
   \<and> closes (trace (accountSearch (demo_env empty_exec connected) ''bitshares'' ''nobody'' two_nodes
                      :: (string option reply, unit, string list) outcome)) = 0
   \<and> closes (trace (getPortfolio (demo_env orders_fail_exec connected) ''bitshares'' ''1.2.100''
                       two_nodes
                      :: (string portfolio reply, unit, string list) outcome)) = 2"
  by (simp add: accountSearch_def getPortfolio_def Let_def outcome_steps demo_env_def connected_def two_nodes_def empty_exec_def orders_fail_exec_def
          portfolio_exec_def closes_def)

text \<open>
  Claim C9, evaluated where the code departs from it. When the history service answers with
  status 500, the promise of \<^verbatim>\<open>getAccountHistory\<close> is never settled. When the
  request itself fails, the promise is rejected with the error of \<^verbatim>\<open>fetch\<close>.
\<close>

theorem getAccountHistory_not_ok_never_settles:
  "getAccountHistory http_500 ''bitshares'' ''1.2.100'' None None None None None None None = Pending
   \<and> getAccountHistory http_down ''bitshares'' ''1.2.100'' None None None None None None None
       = Rejected (Error ''fetch failed'')"
  by (simp add: getAccountHistory_def http_500_def http_down_def)


section \<open>The validation of the chain parameter\<close>

lemma handler_rejects_other_chains:
  "checks_both_chains rt \<Longrightarrow> invalid_chain (chain r) \<Longrightarrow> \<exists>e. handler J rt r = Inl e"
  by (cases rt) (simp_all add: missing_def split: sum.splits)

lemma valid_literals:
  "\<not> invalid_chain ''bitshares''" "\<not> invalid_chain ''bitshares_testnet''"
  "\<not> missing ''bitshares''" "\<not> missing ''bitshares_testnet''"
  by (simp_all add: invalid_chain_def missing_def)

lemma handler_literals_alike:
  "checks_both_chains rt \<Longrightarrow>
     isl (handler J rt (r\<lparr>chain := ''bitshares''\<rparr>))
     = isl (handler J rt (r\<lparr>chain := ''bitshares_testnet''\<rparr>))"
  by (cases rt) (simp_all add: valid_literals split: sum.splits body.splits)

lemma handler_blockedAccounts:
  "handler J Api_blockedAccounts r =
     (if chain r = ''bitshares'' then Inr (GetBlockedAccounts ''bitshares'')
      else Inl (Error ''Invalid chain''))"
  by simp

lemma handler_accepts_literal:
  assumes "checks_both_chains rt" and "other_params_ok J r"
    and "chain r = ''bitshares'' \<or> chain r = ''bitshares_testnet''"
  shows "\<exists>c. handler J rt r = Inr c"
proof -
  have v: "\<not> invalid_chain (chain r)" "\<not> missing (chain r)"
    using assms(3) by (auto simp: invalid_chain_def missing_def)
  have p: "\<not> missing (opType r)" "\<not> missing (id' r)" "\<not> missing (quote r)"
    "\<not> missing (base r)" "\<not> missing (searchInput r)" "\<not> missing (accountID r)"
    "\<not> missing (account r)" "string_includes (base r) ''1.3.''"
    "string_includes (quote r) ''1.3.''" "\<not> missing_body (body r)" "\<not> no_keys (body r)"
    using assms(2) by (simp_all add: other_params_ok_def)
  obtain parsed where j: "JSON_parse J (body r) = Inr parsed" "truthy J parsed"
    using assms(2) by (cases "JSON_parse J (body r)") (simp_all add: other_params_ok_def)
  show ?thesis
    using assms(1) v p j by (cases rt) (auto split: body.splits)
qed

lemma demo_params_ok: "other_params_ok demo_json (demo_req c)"
  by (simp add: other_params_ok_def demo_json_def demo_req_def missing_def)

lemma handler_accepts_both_demo:
  assumes "checks_both_chains rt"
  shows "(\<exists>c. handler demo_json rt (demo_req ''bitshares'') = Inr c)
       \<and> (\<exists>c. handler demo_json rt (demo_req ''bitshares_testnet'') = Inr c)"
proof -
  have "chain (demo_req ''bitshares'') = ''bitshares''"
       "chain (demo_req ''bitshares_testnet'') = ''bitshares_testnet''"
    by (simp_all add: demo_req_def)
  then show ?thesis
    using handler_accepts_literal[OF assms demo_params_ok] by blast
qed

text \<open>
  Claim C8, as amended. For every route with a \<^verbatim>\<open>:chain\<close> parameter other than
  \<^verbatim>\<open>/api/blockedAccounts\<close>, \<^verbatim>\<open>/cache/pools\<close> and
  \<^verbatim>\<open>/cache/bitassets\<close>: a chain that is neither \<^verbatim>\<open>bitshares\<close> nor
  \<^verbatim>\<open>bitshares_testnet\<close> makes the handler throw before it calls anything; a handler
  that reaches its call was given one of the two literals; each of the two literals is
  accepted, the handler reaching its call, whenever the checks that do not concern the chain
  pass; and the two literals are treated alike (with the other parameters unchanged, both are
  accepted or both refused). \<^verbatim>\<open>/api/blockedAccounts\<close> accepts
  \<^verbatim>\<open>bitshares\<close> alone.
\<close>

theorem handler_chain_validation:
  assumes "checks_both_chains rt"
  shows "(invalid_chain (chain r) \<longrightarrow> (\<exists>e. handler J rt r = Inl e))
     \<and> (\<forall>c. handler J rt r = Inr c
           \<longrightarrow> chain r = ''bitshares'' \<or> chain r = ''bitshares_testnet'')
     \<and> (other_params_ok J r
           \<longrightarrow> chain r = ''bitshares'' \<or> chain r = ''bitshares_testnet''
           \<longrightarrow> (\<exists>c. handler J rt r = Inr c))
     \<and> isl (handler J rt (r\<lparr>chain := ''bitshares''\<rparr>))
       = isl (handler J rt (r\<lparr>chain := ''bitshares_testnet''\<rparr>))
     \<and> handler J Api_blockedAccounts r =
         (if chain r = ''bitshares'' then Inr (GetBlockedAccounts ''bitshares'')
          else Inl (Error ''Invalid chain''))"
proof -
  have c1: "invalid_chain (chain r) \<longrightarrow> (\<exists>e. handler J rt r = Inl e)"
    using handler_rejects_other_chains[OF assms] by blast
  have c2: "\<forall>c. handler J rt r = Inr c
           \<longrightarrow> chain r = ''bitshares'' \<or> chain r = ''bitshares_testnet''"
  proof (intro allI impI)
    fix c assume a: "handler J rt r = Inr c"
    show "chain r = ''bitshares'' \<or> chain r = ''bitshares_testnet''"
    proof (rule ccontr)
      assume "\<not> (chain r = ''bitshares'' \<or> chain r = ''bitshares_testnet'')"
      then have "invalid_chain (chain r)" by (simp add: invalid_chain_def)
      from handler_rejects_other_chains[OF assms this, of J] a show False by auto
    qed
  qed
  have c3: "other_params_ok J r
           \<longrightarrow> chain r = ''bitshares'' \<or> chain r = ''bitshares_testnet''
           \<longrightarrow> (\<exists>c. handler J rt r = Inr c)"
    using handler_accepts_literal[OF assms] by blast
  have c4: "isl (handler J rt (r\<lparr>chain := ''bitshares''\<rparr>))
       = isl (handler J rt (r\<lparr>chain := ''bitshares_testnet''\<rparr>))"
    using assms by (rule handler_literals_alike)
  have c5: "handler J Api_blockedAccounts r =
         (if chain r = ''bitshares'' then Inr (GetBlockedAccounts ''bitshares'')
          else Inl (Error ''Invalid chain''))"
    by (rule handler_blockedAccounts)
  show ?thesis by (intro conjI) (rule c1 c2 c3 c4 c5)+
qed

theorem handler_chain_validation_witness:
  "checks_both_chains Api_orderBook
   \<and> invalid_chain (chain (demo_req ''ethereum''))
   \<and> (\<exists>e. handler demo_json Api_orderBook (demo_req ''ethereum'') = Inl e)
   \<and> handler demo_json Api_orderBook (demo_req ''ethereum'') = Inl (Error ''Invalid chain'')
   \<and> other_params_ok demo_json (demo_req ''bitshares'')
   \<and> (\<exists>c. handler demo_json Api_orderBook (demo_req ''bitshares'') = Inr c)
   \<and> handler demo_json Api_orderBook (demo_req ''bitshares'')
       = Inr (FetchOrderBook ''bitshares'' ''1.3.0'' ''1.3.121'')
   \<and> handler demo_json Api_orderBook (demo_req ''bitshares_testnet'')
       = Inr (FetchOrderBook ''bitshares_testnet'' ''1.3.0'' ''1.3.121'')"
proof -
  have h: "checks_both_chains Api_orderBook" by simp
  have i: "invalid_chain (chain (demo_req ''ethereum''))"
    by (simp add: demo_req_def invalid_chain_def)
  from handler_chain_validation[OF h, of "demo_req ''ethereum''" demo_json] i
  have e: "\<exists>e. handler demo_json Api_orderBook (demo_req ''ethereum'') = Inl e"
    by (elim conjE) (erule (1) mp)
  have l: "chain (demo_req ''bitshares'') = ''bitshares''
           \<or> chain (demo_req ''bitshares'') = ''bitshares_testnet''"
    by (simp add: demo_req_def)
  note o = demo_params_ok[of "''bitshares''"]
  from handler_chain_validation[OF h, of "demo_req ''bitshares''" demo_json] o l
  have g: "\<exists>c. handler demo_json Api_orderBook (demo_req ''bitshares'') = Inr c"
    by (elim conjE) (erule mp[OF mp])
  have r: "handler demo_json Api_orderBook (demo_req ''ethereum'') = Inl (Error ''Invalid chain'')"
    by (simp add: demo_req_def invalid_chain_def missing_def)
  have a: "handler demo_json Api_orderBook (demo_req ''bitshares'')
       = Inr (FetchOrderBook ''bitshares'' ''1.3.0'' ''1.3.121'')"
    by (simp add: demo_req_def invalid_chain_def missing_def)
  have b: "handler demo_json Api_orderBook (demo_req ''bitshares_testnet'')
       = Inr (FetchOrderBook ''bitshares_testnet'' ''1.3.0'' ''1.3.121'')"
    by (simp add: demo_req_def invalid_chain_def missing_def)
  from h i e r o g a b show ?thesis by (intro conjI)
qed

text \<open>
  Claim C8 as stated has every route accept exactly the two literals.
  \<^verbatim>\<open>/api/blockedAccounts\<close> refuses \<^verbatim>\<open>bitshares_testnet\<close>, and
  \<^verbatim>\<open>/cache/pools\<close> passes any chain on to \<^verbatim>\<open>getPools\<close>.
\<close>

theorem handler_chain_counterexample:
  "handler demo_json Api_blockedAccounts (demo_req ''bitshares_testnet'') = Inl (Error ''Invalid chain'')
   \<and> handler demo_json Cache_pools (demo_req ''ethereum'') = Inr (GetPools ''ethereum'')"
  by (simp add: demo_req_def)

end
